theory Spec2Isabelle
  imports Complex_Main "HOL-Library.Multiset"
begin

section \<open>JavaScript numbers\<close>

text \<open>
  The draft code computes with the TypeScript type \<open>number\<close>. A number is modelled as an
  exact rational or one of the three special values; the arithmetic below follows the
  ECMAScript rules for \<open>/\<close>, \<open>%\<close>, \<open>+\<close>, \<open>-\<close>, \<open>*\<close>, \<open>Math.ceil\<close>, \<open>===\<close>, the comparisons
  and \<open>||\<close>. None of these operations throws. Negative zero is identified with zero, and rounding of doubles
  is not modelled (all quantities of the draft are small integers and their quotients).
\<close>

datatype jsnum = Fin rat | PInf | NInf | NaN

fun js_div :: "jsnum \<Rightarrow> jsnum \<Rightarrow> jsnum" where
  "js_div NaN b = NaN"
| "js_div a NaN = NaN"
| "js_div (Fin a) (Fin b) =
     (if b \<noteq> 0 then Fin (a / b)
      else if 0 < a then PInf else if a < 0 then NInf else NaN)"
| "js_div (Fin a) b = Fin 0"
| "js_div PInf (Fin b) = (if 0 \<le> b then PInf else NInf)"
| "js_div NInf (Fin b) = (if 0 \<le> b then NInf else PInf)"
| "js_div a b = NaN"

fun js_ceil :: "jsnum \<Rightarrow> jsnum" where
  "js_ceil (Fin a) = Fin (of_int \<lceil>a\<rceil>)"
| "js_ceil a = a"

definition trunc :: "rat \<Rightarrow> int" where
  "trunc a = (if 0 \<le> a then \<lfloor>a\<rfloor> else \<lceil>a\<rceil>)"

text \<open>The remainder \<open>a % b\<close> takes the sign of the dividend.\<close>

fun js_rem :: "jsnum \<Rightarrow> jsnum \<Rightarrow> jsnum" where
  "js_rem (Fin a) (Fin b) = (if b = 0 then NaN else Fin (a - b * of_int (trunc (a / b))))"
| "js_rem (Fin a) PInf = Fin a"
| "js_rem (Fin a) NInf = Fin a"
| "js_rem a b = NaN"

fun js_add :: "jsnum \<Rightarrow> jsnum \<Rightarrow> jsnum" where
  "js_add NaN b = NaN"
| "js_add a NaN = NaN"
| "js_add (Fin a) (Fin b) = Fin (a + b)"
| "js_add PInf NInf = NaN"
| "js_add NInf PInf = NaN"
| "js_add (Fin a) b = b"
| "js_add a b = a"

fun js_neg :: "jsnum \<Rightarrow> jsnum" where
  "js_neg (Fin a) = Fin (- a)"
| "js_neg PInf = NInf"
| "js_neg NInf = PInf"
| "js_neg NaN = NaN"

definition js_sub :: "jsnum \<Rightarrow> jsnum \<Rightarrow> jsnum" where
  "js_sub a b = js_add a (js_neg b)"

fun js_mul :: "jsnum \<Rightarrow> jsnum \<Rightarrow> jsnum" where
  "js_mul NaN b = NaN"
| "js_mul a NaN = NaN"
| "js_mul (Fin a) (Fin b) = Fin (a * b)"
| "js_mul (Fin a) PInf = (if a = 0 then NaN else if 0 < a then PInf else NInf)"
| "js_mul (Fin a) NInf = (if a = 0 then NaN else if 0 < a then NInf else PInf)"
| "js_mul PInf (Fin b) = (if b = 0 then NaN else if 0 < b then PInf else NInf)"
| "js_mul NInf (Fin b) = (if b = 0 then NaN else if 0 < b then NInf else PInf)"
| "js_mul PInf PInf = PInf"
| "js_mul NInf NInf = PInf"
| "js_mul a b = NInf"

text \<open>Strict equality \<open>a === b\<close> on numbers: \<open>NaN\<close> equals nothing.\<close>

definition js_eq :: "jsnum \<Rightarrow> jsnum \<Rightarrow> bool" where
  "js_eq a b = (a \<noteq> NaN \<and> b \<noteq> NaN \<and> a = b)"

fun js_ge :: "jsnum \<Rightarrow> jsnum \<Rightarrow> bool" where
  "js_ge NaN b = False"
| "js_ge a NaN = False"
| "js_ge PInf b = True"
| "js_ge a NInf = True"
| "js_ge (Fin a) (Fin b) = (b \<le> a)"
| "js_ge a b = False"



definition js_le :: "jsnum \<Rightarrow> jsnum \<Rightarrow> bool" where
  "js_le a b = js_ge b a"

text \<open>\<open>a || b\<close> on numbers: \<open>0\<close> and \<open>NaN\<close> are falsy.\<close>

definition js_or :: "jsnum \<Rightarrow> jsnum \<Rightarrow> jsnum" where
  "js_or a b = (if a = Fin 0 \<or> a = NaN then b else a)"

text \<open>
  \<open>xs[i]\<close>: the element when \<open>i\<close> is an integer within the array, \<open>undefined\<close>
  (here \<open>None\<close>) for every other number.
\<close>

definition js_index :: "'a list \<Rightarrow> jsnum \<Rightarrow> 'a option" where
  "js_index xs i =
     (case i of
        Fin r \<Rightarrow>
          (if 0 \<le> r \<and> of_int \<lfloor>r\<rfloor> = r \<and> nat \<lfloor>r\<rfloor> < length xs
           then Some (xs ! nat \<lfloor>r\<rfloor>) else None)
      | _ \<Rightarrow> None)"

abbreviation js_len :: "'a list \<Rightarrow> jsnum" where
  "js_len xs \<equiv> Fin (of_nat (length xs))"

abbreviation js_int :: "int \<Rightarrow> jsnum" where
  "js_int k \<equiv> Fin (of_int k)"

section \<open>Data model of the store (\<open>types/index.ts\<close>, \<open>store.ts\<close>)\<close>

text \<open>
  Only the fields that the modelled functions read or write are kept; every other field of
  \<open>Player\<close>, \<open>Team\<close> and \<open>League\<close> is carried along unchanged by the code. Player ids are
  numbers compared with \<open>===\<close> and never \<open>NaN\<close>, so they are naturals; team and league ids
  are strings. An optional (\<open>| null\<close>, \<open>?:\<close>) value is an \<open>option\<close>.
\<close>

record player =
  p_id :: nat
  selected_by_percent :: jsnum

record roster =
  starters :: "nat list"
  bench :: "nat list"
  injured_reserve :: "nat list"

record team =
  t_id :: string
  t_roster :: roster

record league =
  l_id :: string
  l_teams :: "team list"

text \<open>The \<open>id\<close> of a pick is a template string, a prefix followed by the pick number.\<close>

datatype pick_ref = PickRef string jsnum

record draft_pick =
  dp_id :: pick_ref
  dp_league_id :: string
  dp_team_id :: string
  dp_player_id :: nat
  dp_round :: jsnum
  dp_pick_number :: jsnum
  dp_pick_in_round :: "jsnum option"
  dp_timestamp :: string
  dp_is_auto_pick :: "bool option"

record draft_state =
  ds_isActive :: bool
  ds_currentPick :: jsnum
  ds_currentRound :: jsnum
  ds_timeRemaining :: jsnum
  ds_isMyTurn :: bool
  ds_availablePlayers :: "player list"
  ds_draftBoard :: "draft_pick list list"
  ds_queuedPlayers :: "player list"

record notification_state =
  n_trades :: bool
  n_waivers :: bool
  n_lineupReminders :: bool
  n_news :: bool
  n_scores :: bool

record loading_state =
  ld_user :: bool
  ld_league :: bool
  ld_players :: bool
  ld_draft :: bool

datatype loading_key = KUser | KLeague | KPlayers | KDraft

record app_state =
  user :: "string option"
  currentLeague :: "league option"
  userTeam :: "team option"
  draftState :: "draft_state option"
  availablePlayers :: "player list"
  notifications :: notification_state
  loading :: loading_state
  error :: "string option"

datatype app_action =
    SET_USER "string option"
  | SET_CURRENT_LEAGUE "league option"
  | SET_USER_TEAM "team option"
  | SET_DRAFT_STATE "draft_state option"
  | SET_AVAILABLE_PLAYERS "player list"
  | UPDATE_PLAYER player
  | SET_NOTIFICATIONS notification_state
  | SET_LOADING loading_key bool
  | SET_ERROR "string option"
  | UPDATE_TEAM_ROSTER string "player list"
  | ADD_DRAFT_PICK string player jsnum
  | RESET_STATE

definition initialState :: app_state where
  "initialState =
     \<lparr>user = None, currentLeague = None, userTeam = None, draftState = None,
      availablePlayers = [],
      notifications = \<lparr>n_trades = True, n_waivers = True, n_lineupReminders = True,
                       n_news = True, n_scores = True\<rparr>,
      loading = \<lparr>ld_user = False, ld_league = False, ld_players = False, ld_draft = False\<rparr>,
      error = None\<rparr>"

section \<open>The store reducer (\<open>appReducer\<close> of \<open>store.ts\<close>)\<close>

definition set_loading :: "loading_key \<Rightarrow> bool \<Rightarrow> loading_state \<Rightarrow> loading_state" where
  "set_loading k v l =
     (case k of KUser \<Rightarrow> l\<lparr>ld_user := v\<rparr> | KLeague \<Rightarrow> l\<lparr>ld_league := v\<rparr>
      | KPlayers \<Rightarrow> l\<lparr>ld_players := v\<rparr> | KDraft \<Rightarrow> l\<lparr>ld_draft := v\<rparr>)"

text \<open>\<open>{ ...team, roster: { starters: [...team.roster.starters, player.id], ... } }\<close>\<close>

definition add_starter :: "nat \<Rightarrow> team \<Rightarrow> team" where
  "add_starter pid team =
     team\<lparr>t_roster := \<lparr>starters = starters (t_roster team) @ [pid],
                         bench = bench (t_roster team),
                         injured_reserve = injured_reserve (t_roster team)\<rparr>\<rparr>"

definition set_roster :: "player list \<Rightarrow> team \<Rightarrow> team" where
  "set_roster ps team =
     team\<lparr>t_roster := \<lparr>starters = map p_id ps, bench = [], injured_reserve = []\<rparr>\<rparr>"

text \<open>\<open>state.currentLeague?.teams.length || 1\<close> and \<open>state.currentLeague?.id || ''\<close>\<close>

definition teamCountOr1 :: "app_state \<Rightarrow> jsnum" where
  "teamCountOr1 state =
     (case currentLeague state of None \<Rightarrow> Fin 1 | Some l \<Rightarrow> js_or (js_len (l_teams l)) (Fin 1))"

definition leagueIdOrEmpty :: "app_state \<Rightarrow> string" where
  "leagueIdOrEmpty state = (case currentLeague state of None \<Rightarrow> [] | Some l \<Rightarrow> l_id l)"

text \<open>
  The \<open>draftBoard.map\<close> of the \<open>ADD_DRAFT_PICK\<close> case: the new pick is appended to the row
  whose index is the pick's round minus one; \<open>now\<close> is the clock reading
  \<open>new Date().toISOString()\<close>.
\<close>

definition board_add ::
  "string \<Rightarrow> app_state \<Rightarrow> string \<Rightarrow> player \<Rightarrow> jsnum \<Rightarrow> draft_pick list list \<Rightarrow> draft_pick list list"
where
  "board_add now state teamId player pick board =
     map (\<lambda>(roundIndex, round).
            let currentRound = js_sub (js_ceil (js_div pick (teamCountOr1 state))) (Fin 1)
            in if js_eq (js_int (int roundIndex)) currentRound
               then round @
                 [\<lparr>dp_id = PickRef ''pick-'' pick,
                   dp_league_id = leagueIdOrEmpty state,
                   dp_team_id = teamId,
                   dp_player_id = p_id player,
                   dp_round = js_add currentRound (Fin 1),
                   dp_pick_number = pick,
                   dp_pick_in_round =
                     Some (js_add (js_rem (js_sub pick (Fin 1)) (teamCountOr1 state)) (Fin 1)),
                   dp_timestamp = now,
                   dp_is_auto_pick = None\<rparr>]
               else round)
         (zip [0..<length board] board)"

fun appReducer :: "string \<Rightarrow> app_state \<Rightarrow> app_action \<Rightarrow> app_state" where
  "appReducer now state (SET_USER u) = state\<lparr>user := u\<rparr>"
| "appReducer now state (SET_CURRENT_LEAGUE l) = state\<lparr>currentLeague := l\<rparr>"
| "appReducer now state (SET_USER_TEAM t) = state\<lparr>userTeam := t\<rparr>"
| "appReducer now state (SET_DRAFT_STATE d) = state\<lparr>draftState := d\<rparr>"
| "appReducer now state (SET_AVAILABLE_PLAYERS ps) = state\<lparr>availablePlayers := ps\<rparr>"
| "appReducer now state (UPDATE_PLAYER payload) =
     state\<lparr>availablePlayers :=
       map (\<lambda>player. if p_id player = p_id payload then payload else player)
         (availablePlayers state)\<rparr>"
| "appReducer now state (SET_NOTIFICATIONS n) = state\<lparr>notifications := n\<rparr>"
| "appReducer now state (SET_LOADING k v) = state\<lparr>loading := set_loading k v (loading state)\<rparr>"
| "appReducer now state (SET_ERROR e) = state\<lparr>error := e\<rparr>"
| "appReducer now state (UPDATE_TEAM_ROSTER teamId ps) =
     state\<lparr>currentLeague :=
             (case currentLeague state of
                Some l \<Rightarrow>
                  Some (l\<lparr>l_teams :=
                    map (\<lambda>team. if t_id team = teamId then set_roster ps team else team) (l_teams l)\<rparr>)
              | None \<Rightarrow> None),
           userTeam :=
             (case userTeam state of
                Some t \<Rightarrow> if t_id t = teamId then Some (set_roster ps t) else Some t
              | None \<Rightarrow> None)\<rparr>"
| "appReducer now state (ADD_DRAFT_PICK teamId player pick) =
     state\<lparr>availablePlayers :=
             map (\<lambda>p. if p_id p = p_id player
                      then p\<lparr>selected_by_percent := js_add (selected_by_percent p) (Fin 1)\<rparr>
                      else p)
               (availablePlayers state),
           currentLeague :=
             (case currentLeague state of
                Some l \<Rightarrow>
                  Some (l\<lparr>l_teams :=
                    map (\<lambda>team. if t_id team = teamId then add_starter (p_id player) team else team)
                      (l_teams l)\<rparr>)
              | None \<Rightarrow> None),
           userTeam :=
             (case userTeam state of
                Some t \<Rightarrow> if t_id t = teamId then Some (add_starter (p_id player) t) else Some t
              | None \<Rightarrow> None),
           draftState :=
             (case draftState state of
                Some d \<Rightarrow>
                  Some (d\<lparr>ds_currentPick := js_add pick (Fin 1),
                          ds_draftBoard := board_add now state teamId player pick (ds_draftBoard d)\<rparr>)
              | None \<Rightarrow> None)\<rparr>"
| "appReducer now state RESET_STATE = initialState"

section \<open>Turn resolver\<close>

text \<open>\<open>getDraftOrder\<close> of \<open>MockDraftSimulator.tsx\<close> (snake draft).\<close>

definition getDraftOrder :: "jsnum \<Rightarrow> jsnum \<Rightarrow> jsnum" where
  "getDraftOrder pick totalTeams =
     (let round = js_ceil (js_div pick totalTeams);
          isEvenRound = js_eq (js_rem round (Fin 2)) (Fin 0);
          positionInRound = js_add (js_rem (js_sub pick (Fin 1)) totalTeams) (Fin 1)
      in if isEvenRound
         then js_sub totalTeams positionInRound
         else js_sub positionInRound (Fin 1))"

text \<open>\<open>selectors.getCurrentDraftTeam\<close> and \<open>selectors.isUserTurn\<close> of \<open>store.ts\<close>.\<close>

definition currentDraftTeamIndex :: "jsnum \<Rightarrow> jsnum \<Rightarrow> jsnum" where
  "currentDraftTeamIndex currentPick teamCount =
     (let round = js_ceil (js_div currentPick teamCount);
          isSnake = js_eq (js_rem round (Fin 2)) (Fin 0);
          positionInRound = js_rem (js_sub currentPick (Fin 1)) teamCount
      in if isSnake
         then js_sub (js_sub teamCount (Fin 1)) positionInRound
         else positionInRound)"

definition getCurrentDraftTeam :: "app_state \<Rightarrow> team option" where
  "getCurrentDraftTeam state =
     (case (draftState state, currentLeague state) of
        (Some d, Some l) \<Rightarrow>
          js_index (l_teams l) (currentDraftTeamIndex (ds_currentPick d) (js_len (l_teams l)))
      | _ \<Rightarrow> None)"

definition isUserTurn :: "app_state \<Rightarrow> bool" where
  "isUserTurn state =
     (map_option t_id (getCurrentDraftTeam state) = map_option t_id (userTeam state))"

section \<open>Validators (\<open>utils/validators.ts\<close>)\<close>

definition isValidLeagueSize :: "jsnum \<Rightarrow> bool" where
  "isValidLeagueSize sz = (js_ge sz (Fin 6) \<and> js_le sz (Fin 18))"




section \<open>Draft board layout (\<open>gridData\<close> of the \<open>DraftGrid\<close> component)\<close>

text \<open>
  \<open>picksByNumber\<close> is the dictionary built by \<open>picks.reduce\<close>: a later pick with the same
  number replaces an earlier one.
\<close>

definition picksByNumber :: "draft_pick list \<Rightarrow> (jsnum \<rightharpoonup> draft_pick)" where
  "picksByNumber picks = fold (\<lambda>pick acc. acc(dp_pick_number pick \<mapsto> pick)) picks Map.empty"

text \<open>
  The pick number of the cell in row \<open>rnd\<close> (the loop variable \<open>round\<close>, from 1) and column \<open>teamIndex\<close> (from 0),
  where \<open>teamsLength\<close> is \<open>teams.length\<close>.
\<close>

definition pickNumber :: "bool \<Rightarrow> nat \<Rightarrow> nat \<Rightarrow> nat \<Rightarrow> int" where
  "pickNumber isSnakeDraft teamsLength rnd teamIndex =
     (if isSnakeDraft \<and> rnd mod 2 = 0
      then (int rnd - 1) * int teamsLength + (int teamsLength - int teamIndex)
      else (int rnd - 1) * int teamsLength + (int teamIndex + 1))"

text \<open>
  The two nested \<open>for\<close> loops: rounds \<open>1..totalRounds\<close>, columns \<open>0..teams.length - 1\<close>.
  The number of rounds is a whole number, here a natural.
\<close>

definition gridData ::
  "team list \<Rightarrow> draft_pick list \<Rightarrow> nat \<Rightarrow> bool \<Rightarrow> draft_pick option list list" where
  "gridData teams picks totalRounds isSnakeDraft =
     map (\<lambda>round.
            map (\<lambda>teamIndex.
                   picksByNumber picks
                     (js_int (pickNumber isSnakeDraft (length teams) round teamIndex)))
              [0..<length teams])
       [1..<Suc totalRounds]"

section \<open>The turn order of the specification\<close>

text \<open>
  The algorithm as the specification words it, on integers: \<open>round = ceil(currentPick /
  teamCount)\<close>, \<open>positionInRound = ((currentPick - 1) mod teamCount) + 1\<close>, and the index is
  \<open>teamCount - positionInRound\<close> in an even round, \<open>positionInRound - 1\<close> in an odd one.
\<close>

definition spec_round :: "int \<Rightarrow> int \<Rightarrow> int" where
  "spec_round currentPick teamCount = \<lceil>(of_int currentPick :: rat) / of_int teamCount\<rceil>"

definition spec_positionInRound :: "int \<Rightarrow> int \<Rightarrow> int" where
  "spec_positionInRound currentPick teamCount = ((currentPick - 1) mod teamCount) + 1"

definition spec_snake_index :: "int \<Rightarrow> int \<Rightarrow> int" where
  "spec_snake_index currentPick teamCount =
     (if even (spec_round currentPick teamCount)
      then teamCount - spec_positionInRound currentPick teamCount
      else spec_positionInRound currentPick teamCount - 1)"

section \<open>The mock draft simulator (\<open>MockDraftSimulator.tsx\<close>)\<close>

text \<open>
  The component's state variables form a record, and each handler is a function from the
  rendered state to the next one. A handler that throws leaves the state as it was.
  The handlers are modelled as the user's interface calls them, from the current render.
  The timer that \<open>draftPlayer\<close> starts for the next CPU team is returned as an effect; its
  callback belongs to the render that started it and is not run here.
\<close>

record mock_player = player +
  isAvailable :: bool

record mock_team =
  mt_id :: string
  draftedPlayers :: "mock_player list"

record mock_state =
  isActive :: bool
  currentPick :: jsnum
  currentTeamIndex :: jsnum
  draftPicks :: "draft_pick list"
  mockTeams :: "mock_team list"
  ms_availablePlayers :: "mock_player list"
  filteredPlayers :: "mock_player list"
  userQueue :: "mock_player list"
  isAutoPicking :: bool
  isDraftComplete :: bool

datatype js_error = TypeError

datatype effect = ScheduleAutoPick jsnum | CallMakePick nat

text \<open>
  \<open>draftPlayer(player, teamIndex)\<close>; \<open>leagueId\<close> is \<open>league.id\<close>, \<open>rosterSize\<close> is
  \<open>league.settings.roster_size\<close> and \<open>now\<close> the clock reading. Reading \<open>.id\<close> of
  \<open>mockTeams[teamIndex]\<close> throws when there is no such team.
\<close>

definition draftPlayer ::
  "string \<Rightarrow> string \<Rightarrow> jsnum \<Rightarrow> mock_state \<Rightarrow> mock_player \<Rightarrow> jsnum
     \<Rightarrow> js_error + (mock_state \<times> effect list)"
where
  "draftPlayer now leagueId rosterSize s player teamIndex =
     (case js_index (mockTeams s) teamIndex of
        None \<Rightarrow> Inl TypeError
      | Some t \<Rightarrow>
          let pick = \<lparr>dp_id = PickRef ''mock-'' (currentPick s),
                      dp_league_id = leagueId,
                      dp_team_id = mt_id t,
                      dp_player_id = p_id player,
                      dp_round = js_ceil (js_div (currentPick s) (js_len (mockTeams s))),
                      dp_pick_number = currentPick s,
                      dp_pick_in_round = None,
                      dp_timestamp = now,
                      dp_is_auto_pick = Some (\<not> js_eq teamIndex (Fin 0))\<rparr>;
              updatedTeams =
                map (\<lambda>(index, team).
                       if js_eq (js_int (int index)) teamIndex
                       then team\<lparr>draftedPlayers := draftedPlayers team @ [player]\<rparr>
                       else team)
                  (zip [0..<length (mockTeams s)] (mockTeams s));
              updatedPlayers =
                map (\<lambda>p. if p_id p = p_id player then p\<lparr>isAvailable := False\<rparr> else p)
                  (ms_availablePlayers s);
              s1 = s\<lparr>draftPicks := draftPicks s @ [pick],
                     mockTeams := updatedTeams,
                     ms_availablePlayers := updatedPlayers,
                     filteredPlayers := filter isAvailable updatedPlayers,
                     userQueue := filter (\<lambda>p. p_id p \<noteq> p_id player) (userQueue s)\<rparr>;
              totalPicks = js_mul (js_len (mockTeams s)) rosterSize
          in if js_ge (currentPick s) totalPicks
             then Inr (s1\<lparr>isDraftComplete := True, isActive := False\<rparr>, [])
             else
               let nextPick = js_add (currentPick s) (Fin 1);
                   nextTeamIndex = getDraftOrder nextPick (js_len (mockTeams s))
               in Inr (s1\<lparr>currentPick := nextPick, currentTeamIndex := nextTeamIndex\<rparr>,
                       if \<not> js_eq nextTeamIndex (Fin 0)
                       then [ScheduleAutoPick nextTeamIndex] else []))"

definition handleUserDraftPick ::
  "string \<Rightarrow> string \<Rightarrow> jsnum \<Rightarrow> mock_state \<Rightarrow> mock_player
     \<Rightarrow> js_error + (mock_state \<times> effect list)"
where
  "handleUserDraftPick now leagueId rosterSize s player =
     (if \<not> isActive s \<or> \<not> js_eq (currentTeamIndex s) (Fin 0) \<or> isAutoPicking s
      then Inr (s, [])
      else draftPlayer now leagueId rosterSize s player (Fin 0))"

definition addToQueue :: "mock_state \<Rightarrow> mock_player \<Rightarrow> mock_state" where
  "addToQueue s player =
     (if find (\<lambda>p. p_id p = p_id player) (userQueue s) \<noteq> None then s
      else s\<lparr>userQueue := userQueue s @ [player]\<rparr>)"

definition removeFromQueue :: "mock_state \<Rightarrow> nat \<Rightarrow> mock_state" where
  "removeFromQueue s playerId = s\<lparr>userQueue := filter (\<lambda>p. p_id p \<noteq> playerId) (userQueue s)\<rparr>"

definition autoPickFromQueue ::
  "string \<Rightarrow> string \<Rightarrow> jsnum \<Rightarrow> mock_state \<Rightarrow> js_error + (mock_state \<times> effect list)"
where
  "autoPickFromQueue now leagueId rosterSize s =
     (case userQueue s of
        nextPlayer # rest \<Rightarrow>
          if js_eq (currentTeamIndex s) (Fin 0)
          then handleUserDraftPick now leagueId rosterSize s nextPlayer
          else Inr (s, [])
      | [] \<Rightarrow> Inr (s, []))"

text \<open>The ids of the players still available.\<close>

definition available_ids :: "mock_state \<Rightarrow> nat set" where
  "available_ids s = set (map p_id (filter isAvailable (ms_availablePlayers s)))"

section \<open>The draft room (\<open>DraftRoom.tsx\<close>)\<close>

text \<open>
  The room keeps the queue of player ids in its own state. \<open>isMyTurn\<close> and \<open>makePick\<close>
  come from the hook \<open>useDraftState\<close>; \<open>makePick\<close> is taken as a parameter giving the
  success flag it resolves to, and its call is recorded as an effect.
\<close>

definition room_addToQueue :: "nat list \<Rightarrow> nat \<Rightarrow> nat list" where
  "room_addToQueue playerQueue playerId =
     (if playerId \<notin> set playerQueue then playerQueue @ [playerId] else playerQueue)"

definition room_removeFromQueue :: "nat list \<Rightarrow> nat \<Rightarrow> nat list" where
  "room_removeFromQueue playerQueue playerId = filter (\<lambda>i. i \<noteq> playerId) playerQueue"

definition handleMakePick ::
  "bool \<Rightarrow> (nat \<Rightarrow> bool) \<Rightarrow> nat list \<Rightarrow> nat \<Rightarrow> nat list \<times> effect list" where
  "handleMakePick isMyTurn makePick playerQueue playerId =
     (if \<not> isMyTurn then (playerQueue, [])
      else
        let success = makePick playerId
        in (if success then room_removeFromQueue playerQueue playerId else playerQueue,
            [CallMakePick playerId]))"

definition pickFromQueue ::
  "bool \<Rightarrow> (nat \<Rightarrow> bool) \<Rightarrow> nat list \<Rightarrow> nat list \<times> effect list" where
  "pickFromQueue isMyTurn makePick playerQueue =
     (case playerQueue of
        [] \<Rightarrow> (playerQueue, [])
      | nextPlayerId # rest \<Rightarrow>
          if \<not> isMyTurn then (playerQueue, [])
          else handleMakePick isMyTurn makePick playerQueue nextPlayerId)"

text \<open>
  The room as one record: its own state \<open>playerQueue\<close>, and the two values of the hook it
  renders with, the ids of \<open>availablePlayers\<close> and \<open>isMyTurn\<close>. The queue is written by
  \<open>setPlayerQueue\<close> only, which \<open>addToQueue\<close>, \<open>removeFromQueue\<close> and \<open>moveInQueue\<close> call; a
  new value of the hook (a pick by any team, a change of turn) re-renders the room and
  leaves its state as it is.
\<close>

record room =
  rm_playerQueue :: "nat list"
  rm_availablePlayers :: "nat list"
  rm_isMyTurn :: bool

text \<open>
  What happens in the room: a click on a listed player (\<open>handleMakePick\<close> on the user's
  turn, \<open>addToQueue\<close> otherwise; the flag is what \<open>makePick\<close> resolves to if it is called),
  the remove button of a queue entry, the button that drafts the head of the queue, and
  a new value of the hook.
\<close>

datatype room_op =
    ClickPlayer nat bool
  | ClickRemove nat
  | ClickPickFromQueue bool
  | HookUpdate "nat list" bool

fun room_step :: "room \<Rightarrow> room_op \<Rightarrow> room \<times> effect list" where
  "room_step r (ClickPlayer playerId ok) =
     (if rm_isMyTurn r
      then (let (q, effects) = handleMakePick (rm_isMyTurn r) (\<lambda>i. ok) (rm_playerQueue r) playerId
            in (r\<lparr>rm_playerQueue := q\<rparr>, effects))
      else (r\<lparr>rm_playerQueue := room_addToQueue (rm_playerQueue r) playerId\<rparr>, []))"
| "room_step r (ClickRemove playerId) =
     (r\<lparr>rm_playerQueue := room_removeFromQueue (rm_playerQueue r) playerId\<rparr>, [])"
| "room_step r (ClickPickFromQueue ok) =
     (let (q, effects) = pickFromQueue (rm_isMyTurn r) (\<lambda>i. ok) (rm_playerQueue r)
      in (r\<lparr>rm_playerQueue := q\<rparr>, effects))"
| "room_step r (HookUpdate players turn) =
     (r\<lparr>rm_availablePlayers := players, rm_isMyTurn := turn\<rparr>, [])"

fun room_run :: "room \<Rightarrow> room_op list \<Rightarrow> room \<times> effect list" where
  "room_run r [] = (r, [])"
| "room_run r (op # ops) =
     (let (r1, effects1) = room_step r op;
          (r2, effects2) = room_run r1 ops
      in (r2, effects1 @ effects2))"

section \<open>Snapshots and pick events\<close>

text \<open>
  A pick-made event is the payload of \<open>ADD_DRAFT_PICK\<close>. A snapshot is a draft state with
  the list of players; the store loads it with \<open>SET_DRAFT_STATE\<close> and
  \<open>SET_AVAILABLE_PLAYERS\<close>.
\<close>

record pick_event =
  ev_teamId :: string
  ev_player :: player
  ev_pick :: jsnum

definition applyPickMade :: "string \<Rightarrow> app_state \<Rightarrow> pick_event \<Rightarrow> app_state" where
  "applyPickMade now state ev =
     appReducer now state (ADD_DRAFT_PICK (ev_teamId ev) (ev_player ev) (ev_pick ev))"

definition applySnapshot :: "string \<Rightarrow> app_state \<Rightarrow> draft_state \<times> player list \<Rightarrow> app_state" where
  "applySnapshot now state snap =
     appReducer now (appReducer now state (SET_DRAFT_STATE (Some (fst snap))))
       (SET_AVAILABLE_PLAYERS (snd snap))"

fun replay :: "string \<Rightarrow> app_state \<Rightarrow> pick_event list \<Rightarrow> app_state" where
  "replay now state [] = state"
| "replay now state (ev # evs) = replay now (applyPickMade now state ev) evs"

text \<open>
  The draft state store of the specification: the current pick, the ordered list of
  picks and the set of available players. \<open>applyPickMade\<close> ignores an event whose pick
  number is not the current pick; otherwise it appends the pick, removes the picked
  player from the available players and advances the current pick by one.
\<close>

record spec_pick =
  sp_pickNumber :: jsnum
  sp_teamId :: string
  sp_playerId :: nat

record spec_snapshot =
  sn_currentPick :: jsnum
  sn_picks :: "spec_pick list"
  sn_available :: "nat set"

definition event_pick :: "pick_event \<Rightarrow> spec_pick" where
  "event_pick ev =
     \<lparr>sp_pickNumber = ev_pick ev, sp_teamId = ev_teamId ev, sp_playerId = p_id (ev_player ev)\<rparr>"

definition spec_applyPickMade :: "spec_snapshot \<Rightarrow> pick_event \<Rightarrow> spec_snapshot" where
  "spec_applyPickMade sn ev =
     (if ev_pick ev \<noteq> sn_currentPick sn then sn
      else \<lparr>sn_currentPick = js_add (sn_currentPick sn) (Fin 1),
            sn_picks = sn_picks sn @ [event_pick ev],
            sn_available = sn_available sn - {p_id (ev_player ev)}\<rparr>)"

fun spec_final_snapshot :: "spec_snapshot \<Rightarrow> pick_event list \<Rightarrow> spec_snapshot" where
  "spec_final_snapshot sn [] = sn"
| "spec_final_snapshot sn (ev # evs) = spec_final_snapshot (spec_applyPickMade sn ev) evs"

text \<open>
  What a store state or a snapshot holds in these terms: its \<open>currentPick\<close>, the picks on
  its draft board row after row, each with its number, team and player, and the ids of
  its \<open>availablePlayers\<close>. The other fields of a pick record (its id, its round, the
  clock reading that the reducer stamps on it) are not compared. A store without a draft
  state holds nothing.
\<close>

definition pick_view :: "draft_pick \<Rightarrow> spec_pick" where
  "pick_view pk =
     \<lparr>sp_pickNumber = dp_pick_number pk, sp_teamId = dp_team_id pk, sp_playerId = dp_player_id pk\<rparr>"

definition snapshot_view :: "draft_state \<times> player list \<Rightarrow> spec_snapshot" where
  "snapshot_view snap =
     \<lparr>sn_currentPick = ds_currentPick (fst snap),
      sn_picks = map pick_view (concat (ds_draftBoard (fst snap))),
      sn_available = set (map p_id (snd snap))\<rparr>"

definition store_view :: "app_state \<Rightarrow> spec_snapshot option" where
  "store_view state =
     (case draftState state of
        None \<Rightarrow> None
      | Some d \<Rightarrow> Some (snapshot_view (d, availablePlayers state)))"

text \<open>Events arrive in order when each carries the pick number the store expects next.\<close>

fun in_order :: "jsnum \<Rightarrow> pick_event list \<Rightarrow> bool" where
  "in_order c [] = True"
| "in_order c (ev # evs) = (ev_pick ev = c \<and> in_order (js_add c (Fin 1)) evs)"

section \<open>Example data\<close>

definition ex_roster :: roster where
  "ex_roster = \<lparr>starters = [], bench = [], injured_reserve = []\<rparr>"

definition ex_team_a :: team where
  "ex_team_a = \<lparr>t_id = ''team-a'', t_roster = ex_roster\<rparr>"

definition ex_team_b :: team where
  "ex_team_b = \<lparr>t_id = ''team-b'', t_roster = ex_roster\<rparr>"

definition ex_draft :: "jsnum \<Rightarrow> draft_state" where
  "ex_draft pick =
     \<lparr>ds_isActive = True, ds_currentPick = pick, ds_currentRound = Fin 1,
      ds_timeRemaining = Fin 60, ds_isMyTurn = False, ds_availablePlayers = [],
      ds_draftBoard = [[], []], ds_queuedPlayers = []\<rparr>"

text \<open>A store with the given teams, draft on the given pick, and no user team.\<close>

definition ex_store :: "team list \<Rightarrow> jsnum \<Rightarrow> app_state" where
  "ex_store ts pick =
     initialState\<lparr>currentLeague := Some \<lparr>l_id = ''league-1'', l_teams = ts\<rparr>,
                  draftState := Some (ex_draft pick)\<rparr>"

definition ex_pick :: "jsnum \<Rightarrow> jsnum \<Rightarrow> string \<Rightarrow> nat \<Rightarrow> draft_pick" where
  "ex_pick n r tid pid =
     \<lparr>dp_id = PickRef ''pick-'' n, dp_league_id = ''league-1'', dp_team_id = tid,
      dp_player_id = pid, dp_round = r, dp_pick_number = n, dp_pick_in_round = None,
      dp_timestamp = ''2024-08-01T18:00:00.000Z'', dp_is_auto_pick = Some False\<rparr>"

definition ex_now :: string where
  "ex_now = ''2024-08-01T18:00:00.000Z''"

definition ex_player :: "nat \<Rightarrow> player" where
  "ex_player n = \<lparr>p_id = n, selected_by_percent = Fin 10\<rparr>"

text \<open>The store \<open>ex_store\<close> with a list of players and a queue.\<close>

definition ex_store_with :: "team list \<Rightarrow> jsnum \<Rightarrow> player list \<Rightarrow> player list \<Rightarrow> app_state" where
  "ex_store_with ts pick players queue =
     (ex_store ts pick)\<lparr>availablePlayers := players,
                         draftState := Some ((ex_draft pick)\<lparr>ds_queuedPlayers := queue\<rparr>)\<rparr>"

definition ex_event :: "string \<Rightarrow> nat \<Rightarrow> jsnum \<Rightarrow> pick_event" where
  "ex_event tid pid n = \<lparr>ev_teamId = tid, ev_player = ex_player pid, ev_pick = n\<rparr>"

definition ex_mock_player :: "nat \<Rightarrow> bool \<Rightarrow> mock_player" where
  "ex_mock_player n a = \<lparr>p_id = n, selected_by_percent = Fin 10, isAvailable = a\<rparr>"

definition ex_mock_team :: "string \<Rightarrow> mock_team" where
  "ex_mock_team tid = \<lparr>mt_id = tid, draftedPlayers = []\<rparr>"

text \<open>
  A running mock draft of three teams (the user's team first) on the given pick and team
  index, with the given players and queue.
\<close>

definition ex_mock :: "jsnum \<Rightarrow> jsnum \<Rightarrow> mock_player list \<Rightarrow> mock_player list \<Rightarrow> mock_state" where
  "ex_mock pick idx players queue =
     \<lparr>isActive = True, currentPick = pick, currentTeamIndex = idx, draftPicks = [],
      mockTeams = [ex_mock_team ''user'', ex_mock_team ''cpu-1'', ex_mock_team ''cpu-2''],
      ms_availablePlayers = players, filteredPlayers = filter isAvailable players,
      userQueue = queue, isAutoPicking = False, isDraftComplete = False\<rparr>"

section \<open>Properties of the turn resolver\<close>

lemma trunc_nonneg_int: "0 \<le> a \<Longrightarrow> 0 < b \<Longrightarrow> trunc (of_int a / of_int b) = a div b"
  by (simp add: trunc_def floor_divide_of_int_eq)

lemma js_rem_int:
  assumes "0 \<le> a" "0 < b"
  shows "js_rem (js_int a) (js_int b) = js_int (a mod b)"
proof -
  have "(of_int a :: rat) - of_int b * of_int (a div b) = of_int (a - b * (a div b))"
    by simp
  also have "a - b * (a div b) = a mod b"
    by (simp add: minus_mult_div_eq_mod)
  finally show ?thesis
    using assms by (simp add: trunc_nonneg_int)
qed

lemma ceil_div_int:
  fixes p n :: int
  assumes "0 < n"
  shows "\<lceil>(of_int p :: rat) / of_int n\<rceil> = (p - 1) div n + 1"
proof (rule ceiling_unique)
  define q where "q = (p - 1) div n"
  define m where "m = (p - 1) mod n"
  have pm: "p = q * n + m + 1"
    unfolding q_def m_def by simp
  have m: "0 \<le> m" "m < n"
    using assms by (simp_all add: m_def)
  have n0: "(0::rat) < of_int n"
    using assms by simp
  have "q * n < p"
    using pm m by linarith
  then have "(of_int q :: rat) * of_int n < of_int p"
    by (metis of_int_less_iff of_int_mult)
  then show "(of_int ((p - 1) div n + 1) :: rat) - 1 < of_int p / of_int n"
    using n0 by (simp add: q_def pos_less_divide_eq)
  have "p \<le> (q + 1) * n"
    using pm m by (simp add: algebra_simps)
  then have "(of_int p :: rat) \<le> of_int (q + 1) * of_int n"
    by (metis of_int_le_iff of_int_mult)
  then show "(of_int p :: rat) / of_int n \<le> of_int ((p - 1) div n + 1)"
    using n0 by (simp add: q_def pos_divide_le_eq)
qed

lemma spec_round_eq: "0 < n \<Longrightarrow> spec_round p n = (p - 1) div n + 1"
  by (simp add: spec_round_def ceil_div_int)

lemma spec_snake_index_alt:
  assumes "0 < n"
  shows "spec_snake_index p n =
    (if even ((p - 1) div n) then (p - 1) mod n else n - 1 - (p - 1) mod n)"
  using assms by (simp add: spec_snake_index_def spec_round_eq spec_positionInRound_def)

lemma spec_snake_index_range:
  assumes "0 < n"
  shows "0 \<le> spec_snake_index p n \<and> spec_snake_index p n < n"
proof -
  have "0 \<le> (p - 1) mod n" "(p - 1) mod n < n"
    using assms by simp_all
  then show ?thesis
    unfolding spec_snake_index_alt [OF assms] by (cases "even ((p - 1) div n)") auto
qed

lemma js_round_int:
  assumes "0 < n" "1 \<le> p"
  shows "js_ceil (js_div (js_int p) (js_int n)) = js_int (spec_round p n)"
    and "js_eq (js_rem (js_int (spec_round p n)) (Fin 2)) (Fin 0) = even (spec_round p n)"
    and "js_rem (js_sub (js_int p) (Fin 1)) (js_int n) = js_int ((p - 1) mod n)"
proof -
  show "js_ceil (js_div (js_int p) (js_int n)) = js_int (spec_round p n)"
    using assms by (simp add: spec_round_def)
  have "0 \<le> (p - 1) div n"
    using assms by (simp add: pos_imp_zdiv_nonneg_iff)
  then have r0: "0 \<le> spec_round p n"
    using assms by (simp add: spec_round_eq)
  have "js_rem (js_int (spec_round p n)) (js_int 2) = js_int (spec_round p n mod 2)"
    using r0 by (intro js_rem_int) simp_all
  then show "js_eq (js_rem (js_int (spec_round p n)) (Fin 2)) (Fin 0) = even (spec_round p n)"
    by (simp add: js_eq_def even_iff_mod_2_eq_zero)
  have "js_rem (js_int (p - 1)) (js_int n) = js_int ((p - 1) mod n)"
    using assms by (intro js_rem_int) simp_all
  then show "js_rem (js_sub (js_int p) (Fin 1)) (js_int n) = js_int ((p - 1) mod n)"
    by (simp add: js_sub_def)
qed

lemma getDraftOrder_int:
  assumes "0 < n" "1 \<le> p"
  shows "getDraftOrder (js_int p) (js_int n) = js_int (spec_snake_index p n)"
  unfolding getDraftOrder_def js_round_int [OF assms] Let_def
  by (simp add: js_sub_def spec_snake_index_def spec_positionInRound_def)

lemma currentDraftTeamIndex_int:
  assumes "0 < n" "1 \<le> p"
  shows "currentDraftTeamIndex (js_int p) (js_int n) = js_int (spec_snake_index p n)"
  unfolding currentDraftTeamIndex_def js_round_int [OF assms] Let_def
  by (simp add: js_sub_def spec_snake_index_def spec_positionInRound_def)

lemma js_index_int:
  "0 \<le> i \<Longrightarrow> nat i < length xs \<Longrightarrow> js_index xs (js_int i) = Some (xs ! nat i)"
  by (simp add: js_index_def)

lemma getCurrentDraftTeam_int:
  assumes "draftState state = Some d" "currentLeague state = Some l"
    and "ds_currentPick d = js_int p" "1 \<le> p" "l_teams l \<noteq> []"
  shows "getCurrentDraftTeam state =
    Some (l_teams l ! nat (spec_snake_index p (int (length (l_teams l)))))"
proof -
  let ?n = "int (length (l_teams l))"
  have n: "0 < ?n"
    using assms(5) by simp
  have idx: "currentDraftTeamIndex (js_int p) (js_len (l_teams l)) = js_int (spec_snake_index p ?n)"
    using currentDraftTeamIndex_int [OF n assms(4)] by simp
  have "0 \<le> spec_snake_index p ?n" "nat (spec_snake_index p ?n) < length (l_teams l)"
    using spec_snake_index_range [OF n, of p] by linarith+
  then show ?thesis
    using assms(1-3) idx by (simp add: getCurrentDraftTeam_def js_index_int)
qed

lemma mirror_int:
  assumes "0 < n" "1 \<le> p"
  shows "spec_snake_index (2 * n * spec_round p n + 1 - p) n = spec_snake_index p n"
    and "spec_round (2 * n * spec_round p n + 1 - p) n = spec_round p n + 1"
    and "1 \<le> 2 * n * spec_round p n + 1 - p"
proof -
  define q where "q = (p - 1) div n"
  define m where "m = (p - 1) mod n"
  have pm: "p - 1 = q * n + m"
    unfolding q_def m_def by simp
  have m: "0 \<le> m" "m < n"
    using assms by (simp_all add: m_def)
  have q0: "0 \<le> q"
    using assms by (simp add: q_def pos_imp_zdiv_nonneg_iff)
  let ?p' = "2 * n * spec_round p n + 1 - p"
  have r: "spec_round p n = q + 1"
    using assms by (simp add: spec_round_eq q_def)
  have p': "?p' - 1 = (q + 1) * n + (n - 1 - m)"
    unfolding r using pm by (simp add: algebra_simps)
  have p'': "?p' - 1 = n * (q + 1) + (n - 1 - m)"
    using p' by (simp add: algebra_simps)
  have d: "(?p' - 1) div n = q + 1"
    using p'' m by (intro int_div_pos_eq [where r = "n - 1 - m"]) simp_all
  have md: "(?p' - 1) mod n = n - 1 - m"
    using p'' m by (intro int_mod_pos_eq [where q = "q + 1"]) simp_all
  show "spec_snake_index ?p' n = spec_snake_index p n"
    using assms d md by (simp add: spec_snake_index_alt [of n] q_def [symmetric] m_def [symmetric])
  have "spec_round ?p' n = (?p' - 1) div n + 1"
    using assms(1) by (rule spec_round_eq)
  also have "\<dots> = spec_round p n + 1"
    unfolding d by (simp add: r)
  finally show "spec_round ?p' n = spec_round p n + 1" .
  have "0 \<le> (q + 1) * n"
    using q0 assms by simp
  then show "1 \<le> ?p'"
    using p' m by linarith
qed

lemma getDraftOrder_zero_teams: "getDraftOrder pick (Fin 0) = NaN"
  by (cases pick) (simp_all add: getDraftOrder_def js_sub_def js_eq_def Let_def)

lemma currentDraftTeamIndex_zero_teams: "currentDraftTeamIndex pick (Fin 0) = NaN"
  by (cases pick) (simp_all add: currentDraftTeamIndex_def js_sub_def js_eq_def Let_def)

subsection \<open>The snake order\<close>

text \<open>
  C1. In a snake draft with \<open>teamCount > 0\<close> teams and a pick number of at least 1, the turn
  resolver returns the team index of the specification's algorithm: with \<open>round =
  ceil(pick / teamCount)\<close> and \<open>positionInRound = ((pick - 1) mod teamCount) + 1\<close> it is
  \<open>teamCount - positionInRound\<close> in an even round and \<open>positionInRound - 1\<close> in an odd one.
  This holds for \<open>getDraftOrder\<close> and for the team that \<open>getCurrentDraftTeam\<close> selects, and
  the index lies within the teams. With 10 teams, picks 1, 10, 11, 20 and 21 go to the
  indices 0, 9, 9, 0 and 0.
\<close>

theorem turn_resolver_snake_index:
  assumes "0 < teamCount" and "1 \<le> pick"
  shows "getDraftOrder (js_int pick) (js_int teamCount) = js_int (spec_snake_index pick teamCount)
    \<and> (\<forall>state d l.
          draftState state = Some d \<and> currentLeague state = Some l \<and>
          ds_currentPick d = js_int pick \<and> int (length (l_teams l)) = teamCount \<longrightarrow>
          getCurrentDraftTeam state = Some (l_teams l ! nat (spec_snake_index pick teamCount)))
    \<and> 0 \<le> spec_snake_index pick teamCount \<and> spec_snake_index pick teamCount < teamCount
    \<and> getDraftOrder (Fin 1) (Fin 10) = Fin 0
    \<and> getDraftOrder (Fin 10) (Fin 10) = Fin 9
    \<and> getDraftOrder (Fin 11) (Fin 10) = Fin 9
    \<and> getDraftOrder (Fin 20) (Fin 10) = Fin 0
    \<and> getDraftOrder (Fin 21) (Fin 10) = Fin 0"
proof -
  have general: "getDraftOrder (js_int pick) (js_int teamCount) = js_int (spec_snake_index pick teamCount)"
    using assms by (rule getDraftOrder_int)
  have selector: "getCurrentDraftTeam state = Some (l_teams l ! nat (spec_snake_index pick teamCount))"
    if "draftState state = Some d \<and> currentLeague state = Some l \<and>
        ds_currentPick d = js_int pick \<and> int (length (l_teams l)) = teamCount"
    for state d l
  proof -
    have "l_teams l \<noteq> []"
      using that assms(1) by auto
    then show ?thesis
      using getCurrentDraftTeam_int [of state d l pick] that assms(2) by simp
  qed
  have ten: "getDraftOrder (js_int k) (js_int 10) = js_int (spec_snake_index k 10)" if "1 \<le> k" for k
    using that by (intro getDraftOrder_int) simp_all
  have examples:
    "getDraftOrder (Fin 1) (Fin 10) = Fin 0" "getDraftOrder (Fin 10) (Fin 10) = Fin 9"
    "getDraftOrder (Fin 11) (Fin 10) = Fin 9" "getDraftOrder (Fin 20) (Fin 10) = Fin 0"
    "getDraftOrder (Fin 21) (Fin 10) = Fin 0"
    using ten [of 1] ten [of 10] ten [of 11] ten [of 20] ten [of 21]
    by (simp_all add: spec_snake_index_alt)
  show ?thesis
    using general selector spec_snake_index_range [OF assms(1), of pick] examples by blast
qed

theorem turn_resolver_snake_index_witness:
  "(0::int) < 2 \<and> (1::int) \<le> 3
   \<and> getDraftOrder (Fin 3) (Fin 2) = Fin 1
   \<and> getCurrentDraftTeam (ex_store [ex_team_a, ex_team_b] (Fin 3)) = Some ex_team_b"
proof -
  have h: "(0::int) < 2" "(1::int) \<le> 3"
    by simp_all
  note t = turn_resolver_snake_index [OF h]
  have i: "spec_snake_index 3 2 = 1"
    by (simp add: spec_snake_index_alt)
  have "getDraftOrder (Fin 3) (Fin 2) = Fin 1"
    using t i by simp
  moreover have "getCurrentDraftTeam (ex_store [ex_team_a, ex_team_b] (Fin 3)) = Some ex_team_b"
  proof -
    let ?s = "ex_store [ex_team_a, ex_team_b] (Fin 3)"
    have "draftState ?s = Some (ex_draft (Fin 3)) \<and>
          currentLeague ?s = Some \<lparr>l_id = ''league-1'', l_teams = [ex_team_a, ex_team_b]\<rparr> \<and>
          ds_currentPick (ex_draft (Fin 3)) = js_int 3 \<and>
          int (length (l_teams \<lparr>l_id = ''league-1'', l_teams = [ex_team_a, ex_team_b]\<rparr>)) = 2"
      by (simp add: ex_store_def ex_draft_def)
    with t have "getCurrentDraftTeam ?s =
        Some (l_teams \<lparr>l_id = ''league-1'', l_teams = [ex_team_a, ex_team_b]\<rparr> ! nat (spec_snake_index 3 2))"
      by blast
    then show ?thesis
      by (simp add: i)
  qed
  ultimately show ?thesis
    by simp
qed

text \<open>
  C9. The literal formula of the claim fails: with 10 teams pick 1 goes to index 0, while
  pick \<open>teamCount * 2 - 1 = 19\<close> goes to index 1, and the picks one round before or after
  it (9 and 29) go to index 8.
\<close>

theorem snake_reversal_literal_counterexample:
  "getDraftOrder (Fin 1) (Fin 10) \<noteq> getDraftOrder (Fin (10 * 2 - 1)) (Fin 10)
   \<and> getDraftOrder (Fin 1) (Fin 10) \<noteq> getDraftOrder (Fin (10 * 2 - 1 + 10)) (Fin 10)
   \<and> getDraftOrder (Fin 1) (Fin 10) \<noteq> getDraftOrder (Fin (10 * 2 - 1 - 10)) (Fin 10)"
proof -
  have ten: "getDraftOrder (js_int k) (js_int 10) = js_int (spec_snake_index k 10)" if "1 \<le> k" for k
    using that by (intro getDraftOrder_int) simp_all
  show ?thesis
    using ten [of 1] ten [of 19] ten [of 29] ten [of 9]
    by (simp add: spec_snake_index_alt)
qed

text \<open>
  C9, amended. For \<open>teamCount > 0\<close> and every pick \<open>p \<ge> 1\<close> of round \<open>r\<close>, the resolver gives
  pick \<open>p\<close> and its mirror image \<open>2 * teamCount * r + 1 - p\<close>, which lies one round later,
  the same team. In an odd round the index is the ascending \<open>(p - 1) mod teamCount\<close>, in an
  even round the descending \<open>teamCount - 1 - (p - 1) mod teamCount\<close>.
\<close>

theorem snake_reversal_mirror:
  assumes "0 < teamCount" and "1 \<le> p"
  shows "getDraftOrder (js_int p) (js_int teamCount) =
           getDraftOrder (js_int (2 * teamCount * spec_round p teamCount + 1 - p)) (js_int teamCount)
    \<and> spec_round (2 * teamCount * spec_round p teamCount + 1 - p) teamCount =
        spec_round p teamCount + 1
    \<and> (odd (spec_round p teamCount) \<longrightarrow>
          getDraftOrder (js_int p) (js_int teamCount) = js_int ((p - 1) mod teamCount))
    \<and> (even (spec_round p teamCount) \<longrightarrow>
          getDraftOrder (js_int p) (js_int teamCount) =
            js_int (teamCount - 1 - (p - 1) mod teamCount))"
proof -
  let ?p' = "2 * teamCount * spec_round p teamCount + 1 - p"
  have "getDraftOrder (js_int ?p') (js_int teamCount) = js_int (spec_snake_index ?p' teamCount)"
    using assms(1) mirror_int(3) [OF assms] by (rule getDraftOrder_int)
  then have mirror: "getDraftOrder (js_int p) (js_int teamCount) =
      getDraftOrder (js_int ?p') (js_int teamCount)"
    using getDraftOrder_int [OF assms] mirror_int(1) [OF assms] by simp
  have ascending: "getDraftOrder (js_int p) (js_int teamCount) = js_int ((p - 1) mod teamCount)"
    if "odd (spec_round p teamCount)"
    using getDraftOrder_int [OF assms] assms(1) that
    by (simp add: spec_snake_index_alt spec_round_eq)
  have descending: "getDraftOrder (js_int p) (js_int teamCount) =
      js_int (teamCount - 1 - (p - 1) mod teamCount)"
    if "even (spec_round p teamCount)"
    using getDraftOrder_int [OF assms] assms(1) that
    by (simp add: spec_snake_index_alt spec_round_eq)
  show ?thesis
    using mirror mirror_int(2) [OF assms] ascending descending by blast
qed

theorem snake_reversal_mirror_witness:
  "(0::int) < 10 \<and> (1::int) \<le> 3
   \<and> getDraftOrder (Fin 3) (Fin 10) = getDraftOrder (Fin 18) (Fin 10)
   \<and> odd (spec_round 3 10) \<and> getDraftOrder (Fin 3) (Fin 10) = Fin 2
   \<and> even (spec_round 18 10) \<and> getDraftOrder (Fin 18) (Fin 10) = Fin 2"
proof -
  have h: "(0::int) < 10" "(1::int) \<le> 3" "(1::int) \<le> 18"
    by simp_all
  have r: "spec_round 3 10 = 1" "spec_round 18 10 = 2"
    by (simp_all add: spec_round_eq)
  note t3 = snake_reversal_mirror [OF h(1) h(2)]
  note t18 = snake_reversal_mirror [OF h(1) h(3)]
  have a: "getDraftOrder (Fin 3) (Fin 10) = getDraftOrder (Fin 18) (Fin 10)"
    using t3 [THEN conjunct1] by (simp add: r)
  have b: "getDraftOrder (Fin 3) (Fin 10) = Fin 2"
    using t3 [THEN conjunct2, THEN conjunct2, THEN conjunct1] by (simp add: r)
  have c: "getDraftOrder (Fin 18) (Fin 10) = Fin 2"
    using t18 [THEN conjunct2, THEN conjunct2, THEN conjunct2] by (simp add: r)
  show ?thesis
    using a b c by (simp add: r)
qed

subsection \<open>Zero teams\<close>

text \<open>
  C7. With no teams the resolver does not fail: \<open>getDraftOrder(1, 0)\<close> returns \<open>NaN\<close>, and
  in a store whose league has no teams and no user team \<open>isUserTurn\<close> answers \<open>true\<close>.
\<close>

theorem zero_teams_counterexample:
  "getDraftOrder (Fin 1) (Fin 0) = NaN
   \<and> getCurrentDraftTeam (ex_store [] (Fin 1)) = None
   \<and> isUserTurn (ex_store [] (Fin 1))"
  by (simp add: getDraftOrder_zero_teams isUserTurn_def getCurrentDraftTeam_def
      currentDraftTeamIndex_zero_teams js_index_def ex_store_def initialState_def)

text \<open>
  C7, amended. For every pick number, the resolver called with zero teams returns \<open>NaN\<close>
  without raising, and \<open>getCurrentDraftTeam\<close> returns \<open>null\<close> for a league without teams.
  Zero teams is turned down only by the validator \<open>isValidLeagueSize\<close>.
\<close>

theorem zero_teams_returns_NaN:
  "getDraftOrder pick (Fin 0) = NaN
   \<and> (currentLeague state = Some l \<and> l_teams l = [] \<longrightarrow> getCurrentDraftTeam state = None)
   \<and> \<not> isValidLeagueSize (Fin 0)"
proof -
  have "getCurrentDraftTeam state = None" if "currentLeague state = Some l \<and> l_teams l = []"
    using that
    by (simp add: getCurrentDraftTeam_def currentDraftTeamIndex_zero_teams js_index_def
        split: option.splits)
  then show ?thesis
    by (simp add: getDraftOrder_zero_teams isValidLeagueSize_def)
qed

theorem zero_teams_returns_NaN_witness:
  "currentLeague (ex_store [] (Fin 5)) = Some \<lparr>l_id = ''league-1'', l_teams = []\<rparr>
   \<and> getDraftOrder (Fin 5) (Fin 0) = NaN
   \<and> getCurrentDraftTeam (ex_store [] (Fin 5)) = None"
  using zero_teams_returns_NaN [of "Fin 5" "ex_store [] (Fin 5)" "\<lparr>l_id = ''league-1'', l_teams = []\<rparr>"]
  by (simp add: ex_store_def)

subsection \<open>The draft type\<close>




subsection \<open>The draft board\<close>

lemma pickNumber_snake_decomp:
  assumes "1 \<le> rnd" "teamIndex < n"
  shows "pickNumber True n rnd teamIndex - 1 =
    int n * (int rnd - 1) + (if even rnd then int n - 1 - int teamIndex else int teamIndex)"
  by (simp add: pickNumber_def even_iff_mod_2_eq_zero algebra_simps)

lemma pickNumber_snake_div_mod:
  assumes "1 \<le> rnd" "teamIndex < n"
  shows "(pickNumber True n rnd teamIndex - 1) div int n = int rnd - 1"
    and "(pickNumber True n rnd teamIndex - 1) mod int n =
      (if even rnd then int n - 1 - int teamIndex else int teamIndex)"
proof -
  let ?m = "if even rnd then int n - 1 - int teamIndex else int teamIndex"
  have m: "0 \<le> ?m" "?m < int n"
    using assms(2) by auto
  note e = pickNumber_snake_decomp [OF assms]
  show "(pickNumber True n rnd teamIndex - 1) div int n = int rnd - 1"
    using e m by (rule int_div_pos_eq)
  show "(pickNumber True n rnd teamIndex - 1) mod int n = ?m"
    using e m by (rule int_mod_pos_eq)
qed

lemma pickNumber_snake_inverse:
  assumes "1 \<le> rnd" "teamIndex < n"
  shows "spec_round (pickNumber True n rnd teamIndex) (int n) = int rnd"
    and "spec_snake_index (pickNumber True n rnd teamIndex) (int n) = int teamIndex"
proof -
  have n: "0 < int n"
    using assms(2) by simp
  show "spec_round (pickNumber True n rnd teamIndex) (int n) = int rnd"
    using n by (simp add: spec_round_eq pickNumber_snake_div_mod [OF assms])
  have "even (int rnd - 1) = odd rnd"
    using assms(1) by simp
  then show "spec_snake_index (pickNumber True n rnd teamIndex) (int n) = int teamIndex"
    using n by (simp add: spec_snake_index_alt pickNumber_snake_div_mod [OF assms])
qed

lemma gridData_cell:
  assumes "1 \<le> rnd" "rnd \<le> totalRounds" "teamIndex < length ts"
  shows "gridData ts picks totalRounds isSnakeDraft ! (rnd - 1) ! teamIndex =
    picksByNumber picks (js_int (pickNumber isSnakeDraft (length ts) rnd teamIndex))"
proof -
  have "[1..<Suc totalRounds] ! (rnd - 1) = rnd"
    using assms(1,2) by (simp add: nth_upt del: upt_Suc)
  moreover have "rnd - 1 < length [1..<Suc totalRounds]"
    using assms(1,2) by simp
  ultimately show ?thesis
    using assms(3) by (simp add: gridData_def del: upt_Suc)
qed

lemma pickNumber_decomp:
  assumes "1 \<le> rnd" "teamIndex < n"
  shows "pickNumber b n rnd teamIndex - 1 =
    int n * (int rnd - 1) + (if b \<and> even rnd then int n - 1 - int teamIndex else int teamIndex)"
  by (simp add: pickNumber_def even_iff_mod_2_eq_zero algebra_simps)

lemma pickNumber_div_mod:
  assumes "1 \<le> rnd" "teamIndex < n"
  shows "(pickNumber b n rnd teamIndex - 1) div int n = int rnd - 1"
    and "(pickNumber b n rnd teamIndex - 1) mod int n =
      (if b \<and> even rnd then int n - 1 - int teamIndex else int teamIndex)"
proof -
  let ?m = "if b \<and> even rnd then int n - 1 - int teamIndex else int teamIndex"
  have m: "0 \<le> ?m" "?m < int n"
    using assms(2) by auto
  note e = pickNumber_decomp [OF assms, of b]
  show "(pickNumber b n rnd teamIndex - 1) div int n = int rnd - 1"
    using e m by (rule int_div_pos_eq)
  show "(pickNumber b n rnd teamIndex - 1) mod int n = ?m"
    using e m by (rule int_mod_pos_eq)
qed

lemma pickNumber_range:
  assumes "1 \<le> rnd" "rnd \<le> totalRounds" "teamIndex < n"
  shows "1 \<le> pickNumber b n rnd teamIndex"
    and "pickNumber b n rnd teamIndex \<le> int n * int totalRounds"
proof -
  let ?m = "if b \<and> even rnd then int n - 1 - int teamIndex else int teamIndex"
  have m: "0 \<le> ?m" "?m < int n"
    using assms(3) by auto
  note e = pickNumber_decomp [OF assms(1) assms(3), of b]
  have "0 \<le> int n * (int rnd - 1)"
    using assms(1) by simp
  then show "1 \<le> pickNumber b n rnd teamIndex"
    using e m by linarith
  have "int n * int rnd \<le> int n * int totalRounds"
    using assms(2) by (simp add: mult_left_mono)
  moreover have "pickNumber b n rnd teamIndex \<le> int n * int rnd"
    using e m by (simp add: algebra_simps)
  ultimately show "pickNumber b n rnd teamIndex \<le> int n * int totalRounds"
    by linarith
qed

text \<open>The cell that holds pick number \<open>k\<close>.\<close>

lemma pickNumber_cell:
  assumes "0 < n" "1 \<le> k" "k \<le> int n * int totalRounds"
  defines "q \<equiv> (k - 1) div int n" and "m \<equiv> (k - 1) mod int n"
  shows "pickNumber b n (nat (q + 1)) (nat (if b \<and> odd q then int n - 1 - m else m)) = k"
    and "1 \<le> nat (q + 1)" and "nat (q + 1) \<le> totalRounds"
    and "nat (if b \<and> odd q then int n - 1 - m else m) < n"
proof -
  have n: "0 < int n"
    using assms(1) by simp
  have km: "k - 1 = q * int n + m"
    unfolding q_def m_def by simp
  have m: "0 \<le> m" "m < int n"
    using n by (simp_all add: m_def)
  have q0: "0 \<le> q"
    using assms(2) n by (simp add: q_def pos_imp_zdiv_nonneg_iff)
  have kR: "k - 1 < int totalRounds * int n"
    using assms(3) by (simp add: mult.commute)
  have "q < int totalRounds"
  proof (rule ccontr)
    assume "\<not> q < int totalRounds"
    then have "int totalRounds * int n \<le> q * int n"
      using n by (simp add: mult_right_mono)
    then show False
      using km m kR by linarith
  qed
  then show "nat (q + 1) \<le> totalRounds"
    by simp
  show "1 \<le> nat (q + 1)"
    using q0 by simp
  let ?c = "if b \<and> odd q then int n - 1 - m else m"
  have c: "0 \<le> ?c" "?c < int n"
    using m by auto
  then show "nat ?c < n"
    by simp
  have rn: "int (nat (q + 1)) = q + 1"
    using q0 by simp
  have "even (nat (q + 1)) = even (q + 1)"
    using q0 by (intro even_nat_iff) simp
  then have ev: "(nat (q + 1) mod 2 = 0) = odd q"
    by (simp add: even_iff_mod_2_eq_zero [symmetric])
  have ic: "int (nat ?c) = ?c"
    using c by simp
  have "pickNumber b n (nat (q + 1)) (nat ?c) = q * int n + m + 1"
    unfolding pickNumber_def ev rn ic by simp
  then show "pickNumber b n (nat (q + 1)) (nat ?c) = k"
    using km by simp
qed

lemma pickNumber_bij:
  assumes "0 < n" "0 < totalRounds"
  shows "bij_betw (\<lambda>(rnd, teamIndex). pickNumber b n rnd teamIndex)
    ({1..totalRounds} \<times> {0..<n}) {1..int n * int totalRounds}"
proof -
  let ?f = "\<lambda>(rnd, teamIndex). pickNumber b n rnd teamIndex"
  let ?g = "\<lambda>k. (nat ((k - 1) div int n + 1),
      nat (if b \<and> odd ((k - 1) div int n) then int n - 1 - (k - 1) mod int n
           else (k - 1) mod int n))"
  let ?A = "{1..totalRounds} \<times> {0..<n}"
  let ?B = "{1..int n * int totalRounds}"
  have left: "?g (?f (rnd, teamIndex)) = (rnd, teamIndex)"
    if "1 \<le> rnd" "teamIndex < n" for rnd teamIndex
  proof -
    have "odd (int rnd - 1) = even rnd"
      using that(1) by simp
    then show ?thesis
      using that by (simp add: pickNumber_div_mod [OF that])
  qed
  have "\<forall>a\<in>?A. ?g (?f a) = a"
    using left by auto
  moreover have "\<forall>k\<in>?B. ?f (?g k) = k"
  proof
    fix k
    assume "k \<in> ?B"
    then have k: "1 \<le> k" "k \<le> int n * int totalRounds"
      by simp_all
    from pickNumber_cell(1) [OF assms(1) k, where b = b] show "?f (?g k) = k"
      by (simp only: prod.case)
  qed
  moreover have "?f ` ?A \<subseteq> ?B"
    using pickNumber_range by auto
  moreover have "?g ` ?B \<subseteq> ?A"
  proof
    fix c
    assume "c \<in> ?g ` ?B"
    then obtain k where c: "c = ?g k" and "k \<in> ?B"
      by blast
    then have k: "1 \<le> k" "k \<le> int n * int totalRounds"
      by simp_all
    from pickNumber_cell(2,3) [OF assms(1) k] pickNumber_cell(4) [OF assms(1) k, where b = b]
    show "c \<in> ?A"
      unfolding c by (simp only: mem_Times_iff fst_conv snd_conv atLeastAtMost_iff
          atLeastLessThan_iff le0 simp_thms)
  qed
  ultimately show ?thesis
    by (rule bij_betw_byWitness)
qed

text \<open>The dictionary \<open>picksByNumber\<close> holds, under each number, the last pick with it.\<close>

lemma picksByNumber_snoc:
  "picksByNumber (picks @ [pk]) = (picksByNumber picks)(dp_pick_number pk \<mapsto> pk)"
  by (simp add: picksByNumber_def)

lemma picksByNumber_Some:
  "picksByNumber picks k = Some pk \<Longrightarrow> pk \<in> set picks \<and> dp_pick_number pk = k"
proof (induction picks rule: rev_induct)
  case Nil
  then show ?case by (simp add: picksByNumber_def)
next
  case (snoc x xs)
  then show ?case
    by (cases "k = dp_pick_number x") (auto simp add: picksByNumber_snoc)
qed

lemma picksByNumber_distinct:
  assumes "distinct (map dp_pick_number picks)" "pk \<in> set picks"
  shows "picksByNumber picks (dp_pick_number pk) = Some pk"
  using assms
proof (induction picks rule: rev_induct)
  case Nil
  then show ?case by simp
next
  case (snoc x xs)
  show ?case
  proof (cases "pk = x")
    case True
    then show ?thesis by (simp add: picksByNumber_snoc)
  next
    case False
    then have mem: "pk \<in> set xs"
      using snoc.prems by auto
    then have "dp_pick_number pk \<in> dp_pick_number ` set xs"
      by (rule imageI)
    then have "dp_pick_number pk \<noteq> dp_pick_number x"
      using snoc.prems(1) by auto
    then show ?thesis
      using snoc mem by (simp add: picksByNumber_snoc)
  qed
qed

text \<open>
  C10. With \<open>isSnakeDraft\<close> false the board is laid out in linear order, and the snake
  resolver is not its inverse: with 2 teams the cell of round 2 in column 0 has pick
  number 3 and shows pick 3, which the resolver gives to team index 1.
\<close>

theorem draft_grid_linear_counterexample:
  "pickNumber False 2 2 0 = 3
   \<and> gridData [ex_team_a, ex_team_b] [ex_pick (Fin 3) (Fin 2) ''team-b'' 7] 2 False ! 1 ! 0 =
       Some (ex_pick (Fin 3) (Fin 2) ''team-b'' 7)
   \<and> getDraftOrder (Fin 3) (Fin 2) = Fin 1"
proof -
  have p: "pickNumber False 2 2 0 = 3"
    by (simp add: pickNumber_def)
  have "gridData [ex_team_a, ex_team_b] [ex_pick (Fin 3) (Fin 2) ''team-b'' 7] 2 False ! (2 - 1) ! 0 =
      picksByNumber [ex_pick (Fin 3) (Fin 2) ''team-b'' 7]
        (js_int (pickNumber False (length [ex_team_a, ex_team_b]) 2 0))"
    by (rule gridData_cell) simp_all
  then have g: "gridData [ex_team_a, ex_team_b] [ex_pick (Fin 3) (Fin 2) ''team-b'' 7] 2 False ! 1 ! 0 =
      Some (ex_pick (Fin 3) (Fin 2) ''team-b'' 7)"
    by (simp add: pickNumber_def picksByNumber_def ex_pick_def)
  have "getDraftOrder (js_int 3) (js_int 2) = js_int (spec_snake_index 3 2)"
    by (intro getDraftOrder_int) simp_all
  then have r: "getDraftOrder (Fin 3) (Fin 2) = Fin 1"
    by (simp add: spec_snake_index_alt)
  show ?thesis
    using p g r by simp
qed

text \<open>
  C10, amended. For \<open>teamCount > 0\<close> teams and \<open>totalRounds > 0\<close> rounds and for either value
  of \<open>isSnakeDraft\<close>, the pick numbers of the board are a bijection from the cells (round
  \<open>1..totalRounds\<close>, column \<open>0..teamCount - 1\<close>) onto \<open>1..teamCount * totalRounds\<close>. On the snake
  board (\<open>isSnakeDraft\<close> true) the resolver \<open>getDraftOrder\<close> maps the pick number of every
  cell back to the cell's column; on the linear board \<open>positionInRound - 1\<close> does. A cell
  shows a pick only if that pick is in the list and carries the cell's number, so on the
  snake board every pick shown stands in the column that the resolver gives its number.
  When the picks have distinct numbers, each pick numbered within
  \<open>1..teamCount * totalRounds\<close> appears in exactly one cell.
\<close>

theorem draft_grid_layout:
  assumes "0 < length ts" and "0 < totalRounds"
  shows "bij_betw (\<lambda>(rnd, teamIndex). pickNumber isSnakeDraft (length ts) rnd teamIndex)
           ({1..totalRounds} \<times> {0..<length ts}) {1..int (length ts) * int totalRounds}
    \<and> (\<forall>rnd\<in>{1..totalRounds}. \<forall>teamIndex\<in>{0..<length ts}.
          getDraftOrder (js_int (pickNumber True (length ts) rnd teamIndex)) (js_len ts) =
            js_int (int teamIndex)
          \<and> spec_positionInRound (pickNumber False (length ts) rnd teamIndex) (int (length ts)) - 1 =
              int teamIndex
          \<and> (\<forall>pk. gridData ts picks totalRounds isSnakeDraft ! (rnd - 1) ! teamIndex = Some pk \<longrightarrow>
                pk \<in> set picks \<and>
                dp_pick_number pk = js_int (pickNumber isSnakeDraft (length ts) rnd teamIndex))
          \<and> (\<forall>pk. gridData ts picks totalRounds True ! (rnd - 1) ! teamIndex = Some pk \<longrightarrow>
                getDraftOrder (dp_pick_number pk) (js_len ts) = js_int (int teamIndex)))
    \<and> (distinct (map dp_pick_number picks) \<longrightarrow>
         (\<forall>pk\<in>set picks. \<forall>k\<in>{1..int (length ts) * int totalRounds}.
            dp_pick_number pk = js_int k \<longrightarrow>
            (\<exists>!cell. cell \<in> {1..totalRounds} \<times> {0..<length ts} \<and>
               gridData ts picks totalRounds isSnakeDraft ! (fst cell - 1) ! snd cell = Some pk)))"
proof -
  let ?n = "length ts"
  let ?A = "{1..totalRounds} \<times> {0..<?n}"
  let ?B = "{1..int ?n * int totalRounds}"
  let ?f = "\<lambda>(rnd, teamIndex). pickNumber isSnakeDraft ?n rnd teamIndex"
  have bij: "bij_betw ?f ?A ?B"
    using assms by (rule pickNumber_bij)
  have shown: "pk \<in> set picks \<and> dp_pick_number pk = js_int (pickNumber b ?n rnd teamIndex)"
    if "rnd \<in> {1..totalRounds}" "teamIndex \<in> {0..<?n}"
      "gridData ts picks totalRounds b ! (rnd - 1) ! teamIndex = Some pk" for rnd teamIndex pk b
  proof -
    have "picksByNumber picks (js_int (pickNumber b ?n rnd teamIndex)) = Some pk"
      using gridData_cell [of rnd totalRounds teamIndex ts picks b] that by simp
    then show ?thesis
      by (rule picksByNumber_Some)
  qed
  have snake: "getDraftOrder (js_int (pickNumber True ?n rnd teamIndex)) (js_len ts) =
      js_int (int teamIndex)"
    if "rnd \<in> {1..totalRounds}" "teamIndex \<in> {0..<?n}" for rnd teamIndex
  proof -
    have r: "1 \<le> rnd" "rnd \<le> totalRounds" and t: "teamIndex < ?n"
      using that by simp_all
    have "getDraftOrder (js_int (pickNumber True ?n rnd teamIndex)) (js_int (int ?n)) =
        js_int (spec_snake_index (pickNumber True ?n rnd teamIndex) (int ?n))"
      using assms(1) pickNumber_range(1) [OF r t] by (intro getDraftOrder_int) simp_all
    then show ?thesis
      by (simp add: pickNumber_snake_inverse(2) [OF r(1) t])
  qed
  have linear: "spec_positionInRound (pickNumber False ?n rnd teamIndex) (int ?n) - 1 = int teamIndex"
    if "rnd \<in> {1..totalRounds}" "teamIndex \<in> {0..<?n}" for rnd teamIndex
  proof -
    have r: "1 \<le> rnd" and t: "teamIndex < ?n"
      using that by simp_all
    show ?thesis
      using pickNumber_div_mod(2) [OF r t, of False] by (simp add: spec_positionInRound_def)
  qed
  have column: "getDraftOrder (dp_pick_number pk) (js_len ts) = js_int (int teamIndex)"
    if "rnd \<in> {1..totalRounds}" "teamIndex \<in> {0..<?n}"
      "gridData ts picks totalRounds True ! (rnd - 1) ! teamIndex = Some pk" for rnd teamIndex pk
    using shown [OF that] snake [OF that(1,2)] by simp
  have once: "\<exists>!cell. cell \<in> ?A \<and>
      gridData ts picks totalRounds isSnakeDraft ! (fst cell - 1) ! snd cell = Some pk"
    if d: "distinct (map dp_pick_number picks)" and pk: "pk \<in> set picks"
      and k: "k \<in> ?B" "dp_pick_number pk = js_int k" for pk k
  proof -
    have here: "(gridData ts picks totalRounds isSnakeDraft ! (fst cell - 1) ! snd cell = Some pk)
        = (?f cell = k)" if "cell \<in> ?A" for cell
    proof -
      obtain rnd teamIndex where c: "cell = (rnd, teamIndex)"
        by (cases cell)
      have in_cell: "rnd \<in> {1..totalRounds}" "teamIndex \<in> {0..<?n}"
        using that c by simp_all
      have g: "gridData ts picks totalRounds isSnakeDraft ! (rnd - 1) ! teamIndex =
          picksByNumber picks (js_int (pickNumber isSnakeDraft ?n rnd teamIndex))"
        using in_cell by (intro gridData_cell) simp_all
      show ?thesis
      proof
        assume "gridData ts picks totalRounds isSnakeDraft ! (fst cell - 1) ! snd cell = Some pk"
        then have "dp_pick_number pk = js_int (pickNumber isSnakeDraft ?n rnd teamIndex)"
          using shown [OF in_cell] c by simp
        then show "?f cell = k"
          using k(2) c by simp
      next
        assume "?f cell = k"
        then have "js_int (pickNumber isSnakeDraft ?n rnd teamIndex) = dp_pick_number pk"
          using k(2) c by simp
        then show "gridData ts picks totalRounds isSnakeDraft ! (fst cell - 1) ! snd cell = Some pk"
          using g c picksByNumber_distinct [OF d pk] by simp
      qed
    qed
    have "\<exists>!cell. cell \<in> ?A \<and> ?f cell = k"
    proof -
      have inj: "inj_on ?f ?A" and img: "?f ` ?A = ?B"
        using bij by (simp_all add: bij_betw_def)
      obtain cell where cell: "cell \<in> ?A" "?f cell = k"
        using img k(1) by (metis (no_types, lifting) imageE)
      moreover have "c = cell" if "c \<in> ?A" "?f c = k" for c
        using inj that cell by (metis (no_types, lifting) inj_onD)
      ultimately show ?thesis
        by blast
    qed
    then show ?thesis
      using here by (metis (no_types, lifting))
  qed
  show ?thesis
    using bij snake linear shown column once by blast
qed

theorem draft_grid_layout_witness:
  "0 < length [ex_team_a, ex_team_b] \<and> (0::nat) < 2
   \<and> distinct (map dp_pick_number
        [ex_pick (Fin 1) (Fin 1) ''team-a'' 5, ex_pick (Fin 3) (Fin 2) ''team-b'' 7,
         ex_pick (Fin 4) (Fin 2) ''team-a'' 8])
   \<and> bij_betw (\<lambda>(rnd, teamIndex). pickNumber True 2 rnd teamIndex) ({1..2} \<times> {0..<2}) {1..4}
   \<and> pickNumber True 2 2 0 = 4 \<and> getDraftOrder (Fin 4) (Fin 2) = Fin 0
   \<and> (\<exists>!cell. cell \<in> {1..2} \<times> {0..<2} \<and>
         gridData [ex_team_a, ex_team_b]
           [ex_pick (Fin 1) (Fin 1) ''team-a'' 5, ex_pick (Fin 3) (Fin 2) ''team-b'' 7,
            ex_pick (Fin 4) (Fin 2) ''team-a'' 8] 2 True ! (fst cell - 1) ! snd cell =
         Some (ex_pick (Fin 3) (Fin 2) ''team-b'' 7))
   \<and> gridData [ex_team_a, ex_team_b]
        [ex_pick (Fin 1) (Fin 1) ''team-a'' 5, ex_pick (Fin 3) (Fin 2) ''team-b'' 7,
         ex_pick (Fin 4) (Fin 2) ''team-a'' 8] 2 True =
       [[Some (ex_pick (Fin 1) (Fin 1) ''team-a'' 5), None],
        [Some (ex_pick (Fin 4) (Fin 2) ''team-a'' 8), Some (ex_pick (Fin 3) (Fin 2) ''team-b'' 7)]]"
proof -
  let ?ts = "[ex_team_a, ex_team_b]"
  let ?p3 = "ex_pick (Fin 3) (Fin 2) ''team-b'' 7"
  let ?picks = "[ex_pick (Fin 1) (Fin 1) ''team-a'' 5, ?p3, ex_pick (Fin 4) (Fin 2) ''team-a'' 8]"
  have h: "0 < length ?ts" "(0::nat) < 2"
    by simp_all
  have d: "distinct (map dp_pick_number ?picks)"
    by (simp add: ex_pick_def)
  have len: "length ?ts = 2"
    by simp
  note t = draft_grid_layout [OF h, of True ?picks, unfolded len]
  have bij: "bij_betw (\<lambda>(rnd, teamIndex). pickNumber True 2 rnd teamIndex) ({1..2} \<times> {0..<2}) {1..4}"
    using t [THEN conjunct1] by simp
  have p: "pickNumber True 2 2 0 = 4"
    by (simp add: pickNumber_def)
  have "(2::nat) \<in> {1..2}" "(0::nat) \<in> {0..<2}"
    by simp_all
  with t [THEN conjunct2, THEN conjunct1]
  have "getDraftOrder (js_int (pickNumber True 2 2 0)) (Fin (of_nat 2)) = js_int (int 0)"
    by blast
  then have g: "getDraftOrder (Fin 4) (Fin 2) = Fin 0"
    by (simp add: p)
  have "?p3 \<in> set ?picks" "(3::int) \<in> {1..int 2 * int 2}" "dp_pick_number ?p3 = js_int 3"
    by (simp_all add: ex_pick_def)
  with t [THEN conjunct2, THEN conjunct2] d
  have once: "\<exists>!cell. cell \<in> {1..2} \<times> {0..<2} \<and>
      gridData ?ts ?picks 2 True ! (fst cell - 1) ! snd cell = Some ?p3"
    by blast
  have grid: "gridData ?ts ?picks 2 True =
      [[Some (ex_pick (Fin 1) (Fin 1) ''team-a'' 5), None],
       [Some (ex_pick (Fin 4) (Fin 2) ''team-a'' 8), Some ?p3]]"
    by (simp add: gridData_def pickNumber_def picksByNumber_def ex_pick_def upt_rec)
  show ?thesis
    using h d bij p g once grid by blast
qed

section \<open>Properties of the store reducer\<close>

lemma add_pick_draftState:
  assumes "draftState state = Some d"
  shows "draftState (appReducer now state (ADD_DRAFT_PICK teamId player pick)) =
    Some (d\<lparr>ds_currentPick := js_add pick (Fin 1),
            ds_draftBoard := board_add now state teamId player pick (ds_draftBoard d)\<rparr>)"
  using assms by simp

lemma add_pick_player_ids:
  "map p_id (availablePlayers (appReducer now state (ADD_DRAFT_PICK teamId player pick))) =
    map p_id (availablePlayers state)"
  by (induction "availablePlayers state" arbitrary: state) (simp_all add: comp_def)

lemma add_pick_untouched:
  "error (appReducer now state (ADD_DRAFT_PICK teamId player pick)) = error state"
  "loading (appReducer now state (ADD_DRAFT_PICK teamId player pick)) = loading state"
  "user (appReducer now state (ADD_DRAFT_PICK teamId player pick)) = user state"
  "notifications (appReducer now state (ADD_DRAFT_PICK teamId player pick)) = notifications state"
  by simp_all

lemma add_pick_league:
  "teamCountOr1 (appReducer now state (ADD_DRAFT_PICK teamId player pick)) = teamCountOr1 state"
  "leagueIdOrEmpty (appReducer now state (ADD_DRAFT_PICK teamId player pick)) = leagueIdOrEmpty state"
  by (simp_all add: teamCountOr1_def leagueIdOrEmpty_def split: option.splits)

lemma board_add_length: "length (board_add now state teamId player pick board) = length board"
  by (simp add: board_add_def)

lemma board_add_cong:
  assumes "teamCountOr1 s = teamCountOr1 s'" "leagueIdOrEmpty s = leagueIdOrEmpty s'"
  shows "board_add now s teamId player pick board = board_add now s' teamId player pick board"
  by (simp only: board_add_def assms)

lemma rat_of_nat_eq_pred: "((of_nat i :: rat) = of_int r - 1) = (int i = r - 1)"
proof -
  have "((of_int (int i) :: rat) = of_int (r - 1)) = (int i = r - 1)"
    by (rule of_int_eq_iff)
  then show ?thesis
    by simp
qed

lemma board_add_row:
  assumes "teamCountOr1 state = js_int n" "0 < n" "1 \<le> p" "i < length board"
  shows "board_add now state teamId player (js_int p) board ! i =
    (if int i = spec_round p n - 1
     then board ! i @
       [\<lparr>dp_id = PickRef ''pick-'' (js_int p), dp_league_id = leagueIdOrEmpty state,
         dp_team_id = teamId, dp_player_id = p_id player,
         dp_round = js_int (spec_round p n), dp_pick_number = js_int p,
         dp_pick_in_round = Some (js_int (spec_positionInRound p n)),
         dp_timestamp = now, dp_is_auto_pick = None\<rparr>]
     else board ! i)"
proof -
  have r: "js_sub (js_ceil (js_div (js_int p) (js_int n))) (Fin 1) = js_int (spec_round p n - 1)"
    using js_round_int(1) [OF assms(2,3)] by (simp add: js_sub_def)
  have pos: "js_add (js_rem (js_sub (js_int p) (Fin 1)) (js_int n)) (Fin 1) =
      js_int (spec_positionInRound p n)"
    using js_round_int(3) [OF assms(2,3)] by (simp add: spec_positionInRound_def)
  have rr: "js_add (js_int (spec_round p n - 1)) (Fin 1) = js_int (spec_round p n)"
    by simp
  show ?thesis
    using assms(4) unfolding board_add_def assms(1) Let_def r pos rr
    by (simp add: js_eq_def rat_of_nat_eq_pred)
qed


subsection \<open>A pick out of order\<close>

text \<open>
  C2. The reducer does not compare the pick number with \<open>currentPick\<close>. In a store on
  pick 5, an \<open>ADD_DRAFT_PICK\<close> carrying pick 7 moves \<open>currentPick\<close> to 8.
\<close>

theorem out_of_order_pick_counterexample:
  "draftState (ex_store [ex_team_a, ex_team_b] (Fin 5)) = Some (ex_draft (Fin 5))
   \<and> ds_currentPick (ex_draft (Fin 5)) = Fin 5
   \<and> map_option ds_currentPick
        (draftState (appReducer ex_now (ex_store [ex_team_a, ex_team_b] (Fin 5))
           (ADD_DRAFT_PICK ''team-a'' (ex_player 3) (Fin 7)))) = Some (Fin 8)"
  by (simp add: ex_store_def ex_draft_def)

text \<open>
  C2, amended. In every state with a draft in which \<open>ADD_DRAFT_PICK\<close> carries a pick
  number different from \<open>currentPick\<close>, the reducer applies the pick all the same:
  \<open>currentPick\<close> becomes that pick number plus 1. The ids of \<open>availablePlayers\<close> and the
  queue \<open>queuedPlayers\<close> are unchanged, and nothing is signalled: the reducer returns the
  state only, with \<open>error\<close> and \<open>loading\<close> as they were.
\<close>

theorem out_of_order_pick_is_applied:
  assumes "draftState state = Some d" and "pick \<noteq> ds_currentPick d"
  shows "\<exists>d'. draftState (appReducer now state (ADD_DRAFT_PICK teamId player pick)) = Some d'
      \<and> ds_currentPick d' = js_add pick (Fin 1)
      \<and> ds_queuedPlayers d' = ds_queuedPlayers d
      \<and> map p_id (availablePlayers (appReducer now state (ADD_DRAFT_PICK teamId player pick))) =
          map p_id (availablePlayers state)
      \<and> error (appReducer now state (ADD_DRAFT_PICK teamId player pick)) = error state
      \<and> loading (appReducer now state (ADD_DRAFT_PICK teamId player pick)) = loading state"
proof -
  let ?s' = "appReducer now state (ADD_DRAFT_PICK teamId player pick)"
  let ?d' = "d\<lparr>ds_currentPick := js_add pick (Fin 1),
               ds_draftBoard := board_add now state teamId player pick (ds_draftBoard d)\<rparr>"
  have "draftState ?s' = Some ?d'"
    using assms(1) by (rule add_pick_draftState)
  moreover have "ds_currentPick ?d' = js_add pick (Fin 1)" "ds_queuedPlayers ?d' = ds_queuedPlayers d"
    by simp_all
  ultimately show ?thesis
    using add_pick_player_ids [of now state teamId player pick]
      add_pick_untouched(1,2) [of now state teamId player pick]
    by blast
qed

theorem out_of_order_pick_is_applied_witness:
  "draftState (ex_store_with [ex_team_a, ex_team_b] (Fin 5) [ex_player 3, ex_player 7] [ex_player 3])
     = Some ((ex_draft (Fin 5))\<lparr>ds_queuedPlayers := [ex_player 3]\<rparr>)
   \<and> Fin 7 \<noteq> ds_currentPick ((ex_draft (Fin 5))\<lparr>ds_queuedPlayers := [ex_player 3]\<rparr>)
   \<and> (\<exists>d'. draftState (appReducer ex_now
          (ex_store_with [ex_team_a, ex_team_b] (Fin 5) [ex_player 3, ex_player 7] [ex_player 3])
          (ADD_DRAFT_PICK ''team-a'' (ex_player 3) (Fin 7))) = Some d'
        \<and> ds_currentPick d' = Fin 8 \<and> ds_queuedPlayers d' = [ex_player 3])
   \<and> map p_id (availablePlayers (appReducer ex_now
          (ex_store_with [ex_team_a, ex_team_b] (Fin 5) [ex_player 3, ex_player 7] [ex_player 3])
          (ADD_DRAFT_PICK ''team-a'' (ex_player 3) (Fin 7)))) = [3, 7]"
proof -
  let ?s = "ex_store_with [ex_team_a, ex_team_b] (Fin 5) [ex_player 3, ex_player 7] [ex_player 3]"
  let ?d = "(ex_draft (Fin 5))\<lparr>ds_queuedPlayers := [ex_player 3]\<rparr>"
  have h1: "draftState ?s = Some ?d"
    by (simp add: ex_store_with_def)
  have h2: "Fin 7 \<noteq> ds_currentPick ?d"
    by (simp add: ex_draft_def)
  have ids: "map p_id (availablePlayers ?s) = [3, 7]"
    by (simp add: ex_store_with_def ex_player_def)
  show ?thesis
    using out_of_order_pick_is_applied [OF h1 h2, of ex_now "''team-a''" "ex_player 3"] h1 h2 ids
    by simp
qed

subsection \<open>A pick in order\<close>




subsection \<open>Replay of pick events against a snapshot\<close>

lemma applyPickMade_draftState:
  assumes "draftState s = Some d"
  shows "draftState (applyPickMade now s ev) =
    Some (d\<lparr>ds_currentPick := js_add (ev_pick ev) (Fin 1),
            ds_draftBoard :=
              board_add now s (ev_teamId ev) (ev_player ev) (ev_pick ev) (ds_draftBoard d)\<rparr>)"
  unfolding applyPickMade_def using assms by (rule add_pick_draftState)

lemma applyPickMade_keeps:
  "map p_id (availablePlayers (applyPickMade now s ev)) = map p_id (availablePlayers s)"
  "teamCountOr1 (applyPickMade now s ev) = teamCountOr1 s"
  unfolding applyPickMade_def by (rule add_pick_player_ids add_pick_league)+

lemma replay_keeps:
  assumes "draftState s = Some d"
  shows "\<exists>d'. draftState (replay now s evs) = Some d'
    \<and> ds_queuedPlayers d' = ds_queuedPlayers d
    \<and> map p_id (availablePlayers (replay now s evs)) = map p_id (availablePlayers s)"
  using assms
proof (induction evs arbitrary: s d)
  case Nil
  then show ?case by simp
next
  case (Cons ev evs)
  let ?d1 = "d\<lparr>ds_currentPick := js_add (ev_pick ev) (Fin 1),
              ds_draftBoard :=
                board_add now s (ev_teamId ev) (ev_player ev) (ev_pick ev) (ds_draftBoard d)\<rparr>"
  have "draftState (applyPickMade now s ev) = Some ?d1"
    using Cons.prems by (rule applyPickMade_draftState)
  from Cons.IH [OF this] show ?case
    by (simp add: applyPickMade_keeps(1))
qed

lemma applySnapshot_fields:
  "draftState (applySnapshot now state snap) = Some (fst snap)"
  "availablePlayers (applySnapshot now state snap) = snd snap"
  "teamCountOr1 (applySnapshot now state snap) = teamCountOr1 state"
  by (simp_all add: applySnapshot_def teamCountOr1_def)

lemma spec_round_pos:
  assumes "0 < n" "1 \<le> p"
  shows "1 \<le> spec_round p n"
proof -
  have "0 \<le> (p - 1) div n"
    using assms by (simp add: pos_imp_zdiv_nonneg_iff)
  then show ?thesis
    using assms(1) by (simp add: spec_round_eq)
qed

text \<open>The reducer's board after a pick: the row of the pick's round grows, if it is there.\<close>

lemma board_add_update:
  assumes "teamCountOr1 state = js_int n" "0 < n" "1 \<le> p"
  shows "\<exists>pk. pick_view pk =
        \<lparr>sp_pickNumber = js_int p, sp_teamId = teamId, sp_playerId = p_id player\<rparr>
    \<and> board_add now state teamId player (js_int p) board =
        (if spec_round p n \<le> int (length board)
         then board[nat (spec_round p n - 1) := board ! nat (spec_round p n - 1) @ [pk]]
         else board)"
proof -
  let ?pk = "\<lparr>dp_id = PickRef ''pick-'' (js_int p), dp_league_id = leagueIdOrEmpty state,
         dp_team_id = teamId, dp_player_id = p_id player,
         dp_round = js_int (spec_round p n), dp_pick_number = js_int p,
         dp_pick_in_round = Some (js_int (spec_positionInRound p n)),
         dp_timestamp = now, dp_is_auto_pick = None\<rparr>"
  let ?r = "spec_round p n"
  let ?b' = "board_add now state teamId player (js_int p) board"
  have r1: "1 \<le> ?r"
    using assms(2,3) by (rule spec_round_pos)
  have row: "?b' ! i = (if int i = ?r - 1 then board ! i @ [?pk] else board ! i)"
    if "i < length board" for i
    using assms that by (rule board_add_row)
  have "?b' = (if ?r \<le> int (length board)
         then board[nat (?r - 1) := board ! nat (?r - 1) @ [?pk]] else board)"
  proof (cases "?r \<le> int (length board)")
    case True
    have "?b' = board[nat (?r - 1) := board ! nat (?r - 1) @ [?pk]]"
    proof (rule nth_equalityI)
      show "length ?b' = length (board[nat (?r - 1) := board ! nat (?r - 1) @ [?pk]])"
        by (simp add: board_add_length)
    next
      fix i
      assume "i < length ?b'"
      then have i: "i < length board"
        by (simp add: board_add_length)
      have "(int i = ?r - 1) = (i = nat (?r - 1))"
        using r1 by auto
      then show "?b' ! i = board[nat (?r - 1) := board ! nat (?r - 1) @ [?pk]] ! i"
        using row [OF i] i by (auto simp add: nth_list_update)
    qed
    then show ?thesis
      using True by simp
  next
    case False
    have "?b' = board"
    proof (rule nth_equalityI)
      show "length ?b' = length board"
        by (simp add: board_add_length)
    next
      fix i
      assume "i < length ?b'"
      then have i: "i < length board"
        by (simp add: board_add_length)
      then have "int i \<noteq> ?r - 1"
        using False by linarith
      then show "?b' ! i = board ! i"
        using row [OF i] by simp
    qed
    then show ?thesis
      using False by simp
  qed
  moreover have "pick_view ?pk =
      \<lparr>sp_pickNumber = js_int p, sp_teamId = teamId, sp_playerId = p_id player\<rparr>"
    by (simp add: pick_view_def)
  ultimately show ?thesis
    by blast
qed

lemma mset_concat_update:
  "i < length xss \<Longrightarrow>
    mset (concat (xss[i := xss ! i @ [a]])) = add_mset a (mset (concat xss))"
proof (induction xss arbitrary: i)
  case Nil
  then show ?case by simp
next
  case (Cons xs xss)
  then show ?case
    by (cases i) simp_all
qed

lemma applyPickMade_picks:
  assumes "draftState s = Some d" "teamCountOr1 s = js_int n" "0 < n"
    and "ev_pick ev = js_int p" "1 \<le> p"
  shows "\<exists>d1. draftState (applyPickMade now s ev) = Some d1
    \<and> ds_currentPick d1 = js_int (p + 1)
    \<and> length (ds_draftBoard d1) = length (ds_draftBoard d)
    \<and> mset (map pick_view (concat (ds_draftBoard d1))) =
        (if spec_round p n \<le> int (length (ds_draftBoard d))
         then add_mset (event_pick ev) (mset (map pick_view (concat (ds_draftBoard d))))
         else mset (map pick_view (concat (ds_draftBoard d))))"
proof -
  let ?b = "ds_draftBoard d"
  let ?b' = "board_add now s (ev_teamId ev) (ev_player ev) (js_int p) ?b"
  let ?d1 = "d\<lparr>ds_currentPick := js_add (ev_pick ev) (Fin 1), ds_draftBoard := ?b'\<rparr>"
  have d1: "draftState (applyPickMade now s ev) = Some ?d1"
    using applyPickMade_draftState [OF assms(1), of now ev] assms(4) by simp
  obtain pk where pk: "pick_view pk = event_pick ev"
    and b': "?b' = (if spec_round p n \<le> int (length ?b)
         then ?b[nat (spec_round p n - 1) := ?b ! nat (spec_round p n - 1) @ [pk]] else ?b)"
    using board_add_update [OF assms(2,3,5), of "ev_teamId ev" "ev_player ev" now ?b] assms(4)
    by (auto simp add: event_pick_def)
  have "mset (map pick_view (concat ?b')) =
      (if spec_round p n \<le> int (length ?b)
       then add_mset (event_pick ev) (mset (map pick_view (concat ?b)))
       else mset (map pick_view (concat ?b)))"
  proof (cases "spec_round p n \<le> int (length ?b)")
    case True
    have "1 \<le> spec_round p n"
      using assms(3,5) by (rule spec_round_pos)
    then have "nat (spec_round p n - 1) < length ?b"
      using True by linarith
    then show ?thesis
      using True b' pk by (simp add: mset_concat_update)
  next
    case False
    then show ?thesis
      using b' by simp
  qed
  moreover have "ds_currentPick ?d1 = js_int (p + 1)"
    using assms(4) by simp
  moreover have "length (ds_draftBoard ?d1) = length ?b"
    by (simp add: board_add_length)
  ultimately show ?thesis
    using d1 by simp
qed

lemma replay_picks:
  assumes "draftState s = Some d" "ds_currentPick d = js_int c" "1 \<le> c"
    and "in_order (js_int c) evs" "teamCountOr1 s = js_int n" "0 < n"
  shows "\<exists>d'. draftState (replay now s evs) = Some d'
    \<and> ds_currentPick d' = js_int (c + int (length evs))
    \<and> mset (map pick_view (concat (ds_draftBoard d'))) \<subseteq>#
        mset (map pick_view (concat (ds_draftBoard d))) + mset (map event_pick evs)
    \<and> ((\<forall>i<length evs. spec_round (c + int i) n \<le> int (length (ds_draftBoard d))) \<longrightarrow>
         mset (map pick_view (concat (ds_draftBoard d'))) =
           mset (map pick_view (concat (ds_draftBoard d))) + mset (map event_pick evs))"
  using assms(1-5)
proof (induction evs arbitrary: s d c)
  case Nil
  then show ?case by simp
next
  case (Cons ev evs)
  let ?M = "\<lambda>d. mset (map pick_view (concat (ds_draftBoard d)))"
  have pick: "ev_pick ev = js_int c" and rest: "in_order (js_int (c + 1)) evs"
    using Cons.prems(4) by simp_all
  obtain d1 where d1: "draftState (applyPickMade now s ev) = Some d1"
    "ds_currentPick d1 = js_int (c + 1)"
    "length (ds_draftBoard d1) = length (ds_draftBoard d)"
    "?M d1 = (if spec_round c n \<le> int (length (ds_draftBoard d))
       then add_mset (event_pick ev) (?M d) else ?M d)"
    using applyPickMade_picks [OF Cons.prems(1) Cons.prems(5) assms(6) pick Cons.prems(3)]
    by blast
  have c1: "1 \<le> c + 1"
    using Cons.prems(3) by simp
  have tc: "teamCountOr1 (applyPickMade now s ev) = js_int n"
    using Cons.prems(5) by (simp add: applyPickMade_keeps(2))
  obtain d' where d': "draftState (replay now (applyPickMade now s ev) evs) = Some d'"
    "ds_currentPick d' = js_int (c + 1 + int (length evs))"
    "?M d' \<subseteq># ?M d1 + mset (map event_pick evs)"
    "(\<forall>i<length evs. spec_round (c + 1 + int i) n \<le> int (length (ds_draftBoard d1))) \<longrightarrow>
       ?M d' = ?M d1 + mset (map event_pick evs)"
    using Cons.IH [OF d1(1) d1(2) c1 rest tc] by blast
  have "?M d1 \<subseteq># add_mset (event_pick ev) (?M d)"
    using d1(4) by simp
  then have "?M d1 + mset (map event_pick evs) \<subseteq>#
      ?M d + mset (map event_pick (ev # evs))"
    by (simp add: subset_mset.add_mono)
  then have sub: "?M d' \<subseteq># ?M d + mset (map event_pick (ev # evs))"
    using d'(3) by (rule subset_mset.order_trans [rotated])
  have eq: "?M d' = ?M d + mset (map event_pick (ev # evs))"
    if all: "\<forall>i<length (ev # evs). spec_round (c + int i) n \<le> int (length (ds_draftBoard d))"
  proof -
    have "spec_round (c + int 0) n \<le> int (length (ds_draftBoard d))"
      using all by (intro all [rule_format]) simp
    then have first: "?M d1 = add_mset (event_pick ev) (?M d)"
      using d1(4) by simp
    have "spec_round (c + 1 + int i) n \<le> int (length (ds_draftBoard d1))" if "i < length evs" for i
    proof -
      have "spec_round (c + int (Suc i)) n \<le> int (length (ds_draftBoard d))"
        using that by (intro all [rule_format]) simp
      moreover have "c + int (Suc i) = c + 1 + int i"
        by simp
      ultimately show ?thesis
        by (simp only: d1(3))
    qed
    then have "?M d' = ?M d1 + mset (map event_pick evs)"
      using d'(4) by blast
    then show ?thesis
      using first by simp
  qed
  have "c + 1 + int (length evs) = c + int (length (ev # evs))"
    by simp
  then have "ds_currentPick d' = js_int (c + int (length (ev # evs)))"
    using d'(2) by (simp only:)
  then show ?case
    using d'(1) sub eq by auto
qed

lemma spec_applyPickMade_in_order:
  assumes "sn_currentPick sn = js_int c" "ev_pick ev = js_int c"
  shows "spec_applyPickMade sn ev =
    \<lparr>sn_currentPick = js_int (c + 1), sn_picks = sn_picks sn @ [event_pick ev],
     sn_available = sn_available sn - {p_id (ev_player ev)}\<rparr>"
  using assms by (simp add: spec_applyPickMade_def)

lemma spec_final_in_order:
  assumes "sn_currentPick sn = js_int c" "in_order (js_int c) evs"
  shows "sn_currentPick (spec_final_snapshot sn evs) = js_int (c + int (length evs))
    \<and> sn_picks (spec_final_snapshot sn evs) = sn_picks sn @ map event_pick evs
    \<and> sn_available (spec_final_snapshot sn evs) =
        sn_available sn - (\<lambda>ev. p_id (ev_player ev)) ` set evs"
  using assms
proof (induction evs arbitrary: sn c)
  case Nil
  then show ?case by simp
next
  case (Cons ev evs)
  let ?sn1 = "spec_applyPickMade sn ev"
  have pick: "ev_pick ev = js_int c" and rest: "in_order (js_int (c + 1)) evs"
    using Cons.prems(2) by simp_all
  have sn1: "?sn1 =
    \<lparr>sn_currentPick = js_int (c + 1), sn_picks = sn_picks sn @ [event_pick ev],
     sn_available = sn_available sn - {p_id (ev_player ev)}\<rparr>"
    using Cons.prems(1) pick by (rule spec_applyPickMade_in_order)
  then have cp: "sn_currentPick ?sn1 = js_int (c + 1)"
    by simp
  have len: "c + 1 + int (length evs) = c + int (length (ev # evs))"
    by simp
  have "sn_currentPick (spec_final_snapshot ?sn1 evs) = js_int (c + 1 + int (length evs))
    \<and> sn_picks (spec_final_snapshot ?sn1 evs) = sn_picks ?sn1 @ map event_pick evs
    \<and> sn_available (spec_final_snapshot ?sn1 evs) =
        sn_available ?sn1 - (\<lambda>ev. p_id (ev_player ev)) ` set evs"
    using cp rest by (rule Cons.IH)
  then show ?case
    unfolding len by (auto simp add: sn1)
qed

text \<open>
  C8. Replay and bulk load differ. Load a snapshot on pick 1 with the players 3 and 7
  and replay the event of player 3 drafted as pick 1: the store still lists both
  players, while the final snapshot (pick 2, the pick on the board, player 7 left) lists
  player 7 only. When the loaded board has no rows, the replay records no pick at all.
\<close>

theorem replay_vs_snapshot_counterexample:
  "in_order (ds_currentPick (ex_draft (Fin 1))) [ex_event ''team-a'' 3 (Fin 1)]
   \<and> snapshot_view
        ((ex_draft (Fin 2))\<lparr>ds_draftBoard := [[ex_pick (Fin 1) (Fin 1) ''team-a'' 3], []]\<rparr>,
         [ex_player 7])
       = spec_final_snapshot (snapshot_view (ex_draft (Fin 1), [ex_player 3, ex_player 7]))
           [ex_event ''team-a'' 3 (Fin 1)]
   \<and> map_option sn_available (store_view
        (replay ex_now
           (applySnapshot ex_now (ex_store [ex_team_a, ex_team_b] (Fin 1))
              (ex_draft (Fin 1), [ex_player 3, ex_player 7]))
           [ex_event ''team-a'' 3 (Fin 1)])) = Some {3, 7}
   \<and> map_option sn_available (store_view
        (applySnapshot ex_now (ex_store [ex_team_a, ex_team_b] (Fin 1))
           ((ex_draft (Fin 2))\<lparr>ds_draftBoard := [[ex_pick (Fin 1) (Fin 1) ''team-a'' 3], []]\<rparr>,
            [ex_player 7]))) = Some {7}
   \<and> replay ex_now
        (applySnapshot ex_now (ex_store [ex_team_a, ex_team_b] (Fin 1))
           (ex_draft (Fin 1), [ex_player 3, ex_player 7]))
        [ex_event ''team-a'' 3 (Fin 1)]
     \<noteq> applySnapshot ex_now (ex_store [ex_team_a, ex_team_b] (Fin 1))
         ((ex_draft (Fin 2))\<lparr>ds_draftBoard := [[ex_pick (Fin 1) (Fin 1) ''team-a'' 3], []]\<rparr>,
          [ex_player 7])
   \<and> map_option sn_picks (store_view
        (replay ex_now
           (applySnapshot ex_now (ex_store [ex_team_a, ex_team_b] (Fin 1))
              ((ex_draft (Fin 1))\<lparr>ds_draftBoard := []\<rparr>, [ex_player 3, ex_player 7]))
           [ex_event ''team-a'' 3 (Fin 1)])) = Some []
   \<and> sn_picks (spec_final_snapshot
        (snapshot_view ((ex_draft (Fin 1))\<lparr>ds_draftBoard := []\<rparr>, [ex_player 3, ex_player 7]))
        [ex_event ''team-a'' 3 (Fin 1)])
       = [\<lparr>sp_pickNumber = Fin 1, sp_teamId = ''team-a'', sp_playerId = 3\<rparr>]"
proof -
  let ?s0 = "ex_store [ex_team_a, ex_team_b] (Fin 1)"
  let ?snap = "(ex_draft (Fin 1), [ex_player 3, ex_player 7])"
  let ?fin = "((ex_draft (Fin 2))\<lparr>ds_draftBoard := [[ex_pick (Fin 1) (Fin 1) ''team-a'' 3], []]\<rparr>,
      [ex_player 7])"
  let ?bare = "((ex_draft (Fin 1))\<lparr>ds_draftBoard := []\<rparr>, [ex_player 3, ex_player 7])"
  let ?evs = "[ex_event ''team-a'' 3 (Fin 1)]"
  let ?l = "replay ex_now (applySnapshot ex_now ?s0 ?snap) ?evs"
  let ?r = "applySnapshot ex_now ?s0 ?fin"
  have io: "in_order (ds_currentPick (ex_draft (Fin 1))) ?evs"
    by (simp add: ex_draft_def ex_event_def)
  have fin: "snapshot_view ?fin = spec_final_snapshot (snapshot_view ?snap) ?evs"
    by (simp add: snapshot_view_def spec_applyPickMade_def event_pick_def pick_view_def
        ex_draft_def ex_event_def ex_pick_def ex_player_def)
  have l: "map p_id (availablePlayers ?l) = [3, 7]"
    by (simp add: applyPickMade_keeps(1) applySnapshot_fields(2) ex_player_def)
  have r: "map p_id (availablePlayers ?r) = [7]"
    by (simp add: applySnapshot_fields(2) ex_player_def)
  obtain d where d: "draftState ?l = Some d"
    using replay_keeps [OF applySnapshot_fields(1)] by blast
  have lv: "map_option sn_available (store_view ?l) = Some {3, 7}"
    using d l by (simp add: store_view_def snapshot_view_def)
  have rv: "map_option sn_available (store_view ?r) = Some {7}"
    using r by (simp add: store_view_def snapshot_view_def applySnapshot_fields(1))
  have ne: "?l \<noteq> ?r"
    using l r by auto
  have bare: "map_option sn_picks (store_view
      (replay ex_now (applySnapshot ex_now ?s0 ?bare) ?evs)) = Some []"
    by (simp add: store_view_def snapshot_view_def applyPickMade_def applySnapshot_def
        board_add_def ex_draft_def)
  have spec: "sn_picks (spec_final_snapshot (snapshot_view ?bare) ?evs) =
      [\<lparr>sp_pickNumber = Fin 1, sp_teamId = ''team-a'', sp_playerId = 3\<rparr>]"
    by (simp add: snapshot_view_def spec_applyPickMade_def event_pick_def
        ex_draft_def ex_event_def ex_player_def)
  show ?thesis
    using io fin lv rv ne bare spec by blast
qed

text \<open>
  C8, amended. For every snapshot on a pick number \<open>c \<ge> 1\<close> and every in-order sequence of
  pick events, loading the snapshot and replaying the events gives the \<open>currentPick\<close> of
  the final snapshot. The draft board then holds picks (number, team, player) of the
  final snapshot only, and all of them when the loaded board has a row for the round of
  every event; a pick whose round has no row is not recorded. The ids of
  \<open>availablePlayers\<close> and the queue stay those of the loaded snapshot, while the final
  snapshot has every drafted player removed from the available players.
\<close>

theorem replay_against_final_snapshot:
  assumes "ds_currentPick (fst snap) = js_int c" and "1 \<le> c" and "in_order (js_int c) evs"
    and "teamCountOr1 state = js_int n" and "0 < n"
  shows "\<exists>v d1.
      store_view (replay now (applySnapshot now state snap) evs) = Some v
    \<and> draftState (replay now (applySnapshot now state snap) evs) = Some d1
    \<and> sn_currentPick v = sn_currentPick (spec_final_snapshot (snapshot_view snap) evs)
    \<and> mset (sn_picks v) \<subseteq># mset (sn_picks (spec_final_snapshot (snapshot_view snap) evs))
    \<and> ((\<forall>i<length evs. spec_round (c + int i) n \<le> int (length (ds_draftBoard (fst snap)))) \<longrightarrow>
         mset (sn_picks v) = mset (sn_picks (spec_final_snapshot (snapshot_view snap) evs)))
    \<and> sn_available v = sn_available (snapshot_view snap)
    \<and> sn_available (spec_final_snapshot (snapshot_view snap) evs) =
        sn_available (snapshot_view snap) - (\<lambda>ev. p_id (ev_player ev)) ` set evs
    \<and> ds_queuedPlayers d1 = ds_queuedPlayers (fst snap)"
proof -
  let ?s = "applySnapshot now state snap"
  let ?fin = "spec_final_snapshot (snapshot_view snap) evs"
  let ?M = "\<lambda>d. mset (map pick_view (concat (ds_draftBoard d)))"
  have d: "draftState ?s = Some (fst snap)"
    by (rule applySnapshot_fields(1))
  have tc: "teamCountOr1 ?s = js_int n"
    using assms(4) by (simp add: applySnapshot_fields(3))
  obtain d1 where d1: "draftState (replay now ?s evs) = Some d1"
    "ds_currentPick d1 = js_int (c + int (length evs))"
    "?M d1 \<subseteq># ?M (fst snap) + mset (map event_pick evs)"
    "(\<forall>i<length evs. spec_round (c + int i) n \<le> int (length (ds_draftBoard (fst snap)))) \<longrightarrow>
       ?M d1 = ?M (fst snap) + mset (map event_pick evs)"
    using replay_picks [OF d assms(1,2,3) tc assms(5)] by blast
  obtain d1' where d1': "draftState (replay now ?s evs) = Some d1'"
    "ds_queuedPlayers d1' = ds_queuedPlayers (fst snap)"
    "map p_id (availablePlayers (replay now ?s evs)) = map p_id (availablePlayers ?s)"
    using replay_keeps [OF d] by blast
  have same: "d1' = d1"
    using d1(1) d1'(1) by simp
  have sv: "sn_currentPick (snapshot_view snap) = js_int c"
    using assms(1) by (simp add: snapshot_view_def)
  note fin = spec_final_in_order [OF sv assms(3)]
  let ?v = "snapshot_view (d1, availablePlayers (replay now ?s evs))"
  have v: "store_view (replay now ?s evs) = Some ?v"
    using d1(1) by (simp add: store_view_def)
  have cp: "sn_currentPick ?v = sn_currentPick ?fin"
    using d1(2) fin by (simp add: snapshot_view_def)
  have finp: "mset (sn_picks ?fin) = ?M (fst snap) + mset (map event_pick evs)"
    using fin by (simp add: snapshot_view_def)
  have vp: "mset (sn_picks ?v) = ?M d1"
    by (simp add: snapshot_view_def)
  have av: "sn_available ?v = sn_available (snapshot_view snap)"
    using d1'(3) by (simp add: snapshot_view_def applySnapshot_fields(2))
  have "sn_currentPick ?v = sn_currentPick ?fin
    \<and> mset (sn_picks ?v) \<subseteq># mset (sn_picks ?fin)
    \<and> ((\<forall>i<length evs. spec_round (c + int i) n \<le> int (length (ds_draftBoard (fst snap)))) \<longrightarrow>
         mset (sn_picks ?v) = mset (sn_picks ?fin))
    \<and> sn_available ?v = sn_available (snapshot_view snap)
    \<and> sn_available ?fin =
        sn_available (snapshot_view snap) - (\<lambda>ev. p_id (ev_player ev)) ` set evs
    \<and> ds_queuedPlayers d1 = ds_queuedPlayers (fst snap)"
    unfolding vp finp using cp d1(3,4) av fin d1'(2) same by simp
  then show ?thesis
    using v d1(1) by blast
qed

theorem replay_against_final_snapshot_witness:
  "ds_currentPick (fst (ex_draft (Fin 1), [ex_player 3, ex_player 7])) = js_int 1
   \<and> in_order (js_int 1) [ex_event ''team-a'' 3 (Fin 1), ex_event ''team-b'' 9 (Fin 2)]
   \<and> teamCountOr1 (ex_store [ex_team_a, ex_team_b] (Fin 1)) = js_int 2
   \<and> spec_round 1 2 \<le> int (length (ds_draftBoard (ex_draft (Fin 1))))
   \<and> spec_round 2 2 \<le> int (length (ds_draftBoard (ex_draft (Fin 1))))
   \<and> (\<exists>v. store_view (replay ex_now
          (applySnapshot ex_now (ex_store [ex_team_a, ex_team_b] (Fin 1))
             (ex_draft (Fin 1), [ex_player 3, ex_player 7]))
          [ex_event ''team-a'' 3 (Fin 1), ex_event ''team-b'' 9 (Fin 2)]) = Some v
      \<and> sn_currentPick v = Fin 3
      \<and> mset (sn_picks v) =
          {#\<lparr>sp_pickNumber = Fin 1, sp_teamId = ''team-a'', sp_playerId = 3\<rparr>,
            \<lparr>sp_pickNumber = Fin 2, sp_teamId = ''team-b'', sp_playerId = 9\<rparr>#}
      \<and> sn_available v = {3, 7})"
proof -
  let ?s0 = "ex_store [ex_team_a, ex_team_b] (Fin 1)"
  let ?snap = "(ex_draft (Fin 1), [ex_player 3, ex_player 7])"
  let ?evs = "[ex_event ''team-a'' 3 (Fin 1), ex_event ''team-b'' 9 (Fin 2)]"
  let ?fin = "spec_final_snapshot (snapshot_view ?snap) ?evs"
  have h1: "ds_currentPick (fst ?snap) = js_int 1"
    by (simp add: ex_draft_def)
  have h2: "(1::int) \<le> 1"
    by simp
  have h3: "in_order (js_int 1) ?evs"
    by (simp add: ex_event_def)
  have h4: "teamCountOr1 ?s0 = js_int 2"
    by (simp add: ex_store_def teamCountOr1_def js_or_def)
  have h5: "(0::int) < 2"
    by simp
  have rows: "\<forall>i<length ?evs. spec_round (1 + int i) 2 \<le> int (length (ds_draftBoard (fst ?snap)))"
    by (simp add: spec_round_eq ex_draft_def less_Suc_eq)
  obtain v where v: "store_view (replay ex_now (applySnapshot ex_now ?s0 ?snap) ?evs) = Some v"
    "sn_currentPick v = sn_currentPick ?fin"
    "(\<forall>i<length ?evs. spec_round (1 + int i) 2 \<le> int (length (ds_draftBoard (fst ?snap)))) \<longrightarrow>
       mset (sn_picks v) = mset (sn_picks ?fin)"
    "sn_available v = sn_available (snapshot_view ?snap)"
    using replay_against_final_snapshot [OF h1 h2 h3 h4 h5, of ex_now] by blast
  have f: "sn_currentPick ?fin = Fin 3"
      "sn_picks ?fin = [\<lparr>sp_pickNumber = Fin 1, sp_teamId = ''team-a'', sp_playerId = 3\<rparr>,
         \<lparr>sp_pickNumber = Fin 2, sp_teamId = ''team-b'', sp_playerId = 9\<rparr>]"
    by (simp_all add: snapshot_view_def spec_applyPickMade_def event_pick_def
        ex_draft_def ex_event_def ex_player_def)
  have a: "sn_available (snapshot_view ?snap) = {3, 7}"
    by (simp add: snapshot_view_def ex_player_def)
  have "sn_currentPick v = Fin 3"
    using v(2) f(1) by simp
  moreover have "mset (sn_picks v) =
      {#\<lparr>sp_pickNumber = Fin 1, sp_teamId = ''team-a'', sp_playerId = 3\<rparr>,
        \<lparr>sp_pickNumber = Fin 2, sp_teamId = ''team-b'', sp_playerId = 9\<rparr>#}"
    using v(3) rows f(2) by simp
  moreover have "sn_available v = {3, 7}"
    using v(4) a by simp
  moreover have "spec_round 1 2 \<le> int (length (ds_draftBoard (ex_draft (Fin 1))))"
      "spec_round 2 2 \<le> int (length (ds_draftBoard (ex_draft (Fin 1))))"
    by (simp_all add: spec_round_eq ex_draft_def)
  ultimately show ?thesis
    using h1 h3 h4 v(1) by blast
qed

section \<open>Properties of the pick handlers\<close>

subsection \<open>Picking out of turn\<close>

text \<open>
  C5. The handlers do not look at availability. On the user's turn
  \<open>handleUserDraftPick\<close> drafts player 3 although that player is no longer available (a pick
  is recorded and \<open>currentPick\<close> advances), and \<open>handleMakePick\<close> calls \<open>makePick\<close> for
  whichever id it is given.
\<close>

theorem unavailable_player_counterexample:
  "3 \<notin> available_ids (ex_mock (Fin 1) (Fin 0) [ex_mock_player 3 False, ex_mock_player 7 True] [])
   \<and> (\<exists>s' effects.
        handleUserDraftPick ex_now ''league-1'' (Fin 15)
          (ex_mock (Fin 1) (Fin 0) [ex_mock_player 3 False, ex_mock_player 7 True] [])
          (ex_mock_player 3 False) = Inr (s', effects)
        \<and> map dp_player_id (draftPicks s') = [3] \<and> currentPick s' = Fin 2
        \<and> effects = [ScheduleAutoPick (Fin 1)])
   \<and> handleMakePick True (\<lambda>playerId. True) [7] 3 = ([7], [CallMakePick 3])"
proof -
  have a: "3 \<notin> available_ids (ex_mock (Fin 1) (Fin 0) [ex_mock_player 3 False, ex_mock_player 7 True] [])"
    by (simp add: available_ids_def ex_mock_def ex_mock_player_def)
  have "getDraftOrder (js_int 2) (js_int 3) = js_int (spec_snake_index 2 3)"
    by (intro getDraftOrder_int) simp_all
  then have g: "getDraftOrder (Fin 2) (Fin 3) = Fin 1"
    by (simp add: spec_snake_index_alt)
  have b: "\<exists>s' effects.
        handleUserDraftPick ex_now ''league-1'' (Fin 15)
          (ex_mock (Fin 1) (Fin 0) [ex_mock_player 3 False, ex_mock_player 7 True] [])
          (ex_mock_player 3 False) = Inr (s', effects)
        \<and> map dp_player_id (draftPicks s') = [3] \<and> currentPick s' = Fin 2
        \<and> effects = [ScheduleAutoPick (Fin 1)]"
    by (simp add: handleUserDraftPick_def draftPlayer_def ex_mock_def ex_mock_player_def
        ex_mock_team_def js_index_def js_eq_def Let_def g)
  have c: "handleMakePick True (\<lambda>playerId. True) [7] 3 = ([7], [CallMakePick 3])"
    by (simp add: handleMakePick_def room_removeFromQueue_def)
  show ?thesis
    using a b c by blast
qed

text \<open>
  C5, amended. When it is not the local user's turn the pick handlers do nothing: with
  \<open>isMyTurn\<close> false \<open>handleMakePick\<close> and \<open>pickFromQueue\<close> do not call \<open>makePick\<close> and leave
  the queue as it is, and when the mock draft is not active, another team is on the
  clock or an auto-pick is running, \<open>handleUserDraftPick\<close> leaves the simulator state as it
  is and starts no timer. (The handlers make no availability check of their own.)
\<close>

theorem pick_out_of_turn_is_noop:
  "(\<not> isMyTurn \<longrightarrow>
      handleMakePick isMyTurn makePick playerQueue playerId = (playerQueue, [])
      \<and> pickFromQueue isMyTurn makePick playerQueue = (playerQueue, []))
   \<and> (\<not> isActive s \<or> \<not> js_eq (currentTeamIndex s) (Fin 0) \<or> isAutoPicking s \<longrightarrow>
        handleUserDraftPick now leagueId rosterSize s player = Inr (s, [])
        \<and> autoPickFromQueue now leagueId rosterSize s = Inr (s, []))"
  by (simp add: handleMakePick_def pickFromQueue_def handleUserDraftPick_def
      autoPickFromQueue_def split: list.splits)

theorem pick_out_of_turn_is_noop_witness:
  "\<not> js_eq (currentTeamIndex (ex_mock (Fin 2) (Fin 1) [ex_mock_player 3 True] [ex_mock_player 3 True]))
       (Fin 0)
   \<and> handleMakePick False (\<lambda>playerId. True) [7, 3] 3 = ([7, 3], [])
   \<and> pickFromQueue False (\<lambda>playerId. True) [7, 3] = ([7, 3], [])
   \<and> handleUserDraftPick ex_now ''league-1'' (Fin 15)
        (ex_mock (Fin 2) (Fin 1) [ex_mock_player 3 True] [ex_mock_player 3 True])
        (ex_mock_player 3 True)
       = Inr (ex_mock (Fin 2) (Fin 1) [ex_mock_player 3 True] [ex_mock_player 3 True], [])"
proof -
  let ?s = "ex_mock (Fin 2) (Fin 1) [ex_mock_player 3 True] [ex_mock_player 3 True]"
  have h: "\<not> js_eq (currentTeamIndex ?s) (Fin 0)"
    by (simp add: ex_mock_def js_eq_def)
  note t = pick_out_of_turn_is_noop [of False "\<lambda>playerId. True" "[7, 3]" 3 ?s ex_now
      "''league-1''" "Fin 15" "ex_mock_player 3 True"]
  show ?thesis
    using t h by simp
qed

section \<open>Properties of the draft room's queue\<close>

lemma room_hook_update_keeps_queue:
  "rm_playerQueue (fst (room_step r (HookUpdate players turn))) = rm_playerQueue r"
  by simp

text \<open>
  C4. In the draft room the queue is not purged when another team drafts a queued
  player. The user queues the players 7, 3 and 9 while all three are available; then
  the hook reports that player 3 is gone. The queue is still \<open>[7, 3, 9]\<close>, where the claim
  asks for \<open>[7, 9]\<close>. Later, on the user's turns, the queue button drafts player 7 and then
  submits player 3, who is no longer available.
\<close>

theorem draft_room_queue_keeps_drafted_player:
  "room_run \<lparr>rm_playerQueue = [], rm_availablePlayers = [3, 7, 9], rm_isMyTurn = False\<rparr>
     [ClickPlayer 7 True, ClickPlayer 3 True, ClickPlayer 9 True, HookUpdate [7, 9] False]
     = (\<lparr>rm_playerQueue = [7, 3, 9], rm_availablePlayers = [7, 9], rm_isMyTurn = False\<rparr>, [])
   \<and> room_run \<lparr>rm_playerQueue = [7, 3, 9], rm_availablePlayers = [7, 9], rm_isMyTurn = False\<rparr>
       [HookUpdate [7, 9] True, ClickPickFromQueue True, HookUpdate [9] False,
        HookUpdate [9] True, ClickPickFromQueue False]
     = (\<lparr>rm_playerQueue = [3, 9], rm_availablePlayers = [9], rm_isMyTurn = True\<rparr>,
        [CallMakePick 7, CallMakePick 3])"
  by (simp add: room_addToQueue_def room_removeFromQueue_def handleMakePick_def
      pickFromQueue_def)

end
